theory Spec2Isabelle
  imports Main "HOL-Library.Word" "HOL-Library.AList" "HOL-Library.Char_ord"
    "HOL-Library.List_Lexorder" "HOL-Library.Sublist"
begin

unbundle bit_operations_syntax

section \<open>Bytes, digests and hex encoding\<close>

text \<open>
  The stores hash with \<^verbatim>\<open>crypto/sha256\<close> of the Go standard library, which is not code
  of this repository. The digest is an argument of the model: \<open>sha256_Sum m\<close> stands
  for \<^verbatim>\<open>digest := sha256.New(); digest.Write(m); digest.Sum(nil)\<close>, a function from the
  bytes written to the bytes of the digest. \<^verbatim>\<open>hex.EncodeToString\<close> is written out.
\<close>

type_synonym byte = "8 word"

type_synonym digest = "byte list \<Rightarrow> byte list"

definition bytes_of :: "string \<Rightarrow> byte list" where
  "bytes_of s = map of_char s"

definition hextable :: string where
  "hextable = ''0123456789abcdef''"

text \<open>\<^verbatim>\<open>hex.EncodeToString\<close>: two characters of \<open>hextable\<close> for every byte.\<close>

definition hex_EncodeToString :: "byte list \<Rightarrow> string" where
  "hex_EncodeToString src =
     concat (map (\<lambda>v. [hextable ! unat (drop_bit 4 v), hextable ! unat (v AND 0x0f)]) src)"

text \<open>The identifier of a blob: what every \<open>Store\<close> computes from the bytes it has read.\<close>

definition content_hash :: "digest \<Rightarrow> byte list \<Rightarrow> string" where
  "content_hash sha256_Sum data = hex_EncodeToString (sha256_Sum data)"

section \<open>Errors and readers\<close>

datatype errno = ENOENT | EEXIST | ENOTEMPTY | EACCES | ENOSPC | EIO

text \<open>
  Go error values. \<open>ErrNotExist\<close> is \<^verbatim>\<open>filestore.ErrNotExist\<close>, a sentinel of this
  repository made by \<^verbatim>\<open>errors.New\<close>; \<open>os_ErrNotExist\<close> is the sentinel of package
  \<^verbatim>\<open>os\<close>, a different value. \<open>Wrapf msg e\<close> is \<^verbatim>\<open>fmt.Errorf(msg + ": %w", e)\<close>
  (the message is kept without its formatted arguments), \<open>PathError op path e\<close> is
  \<^verbatim>\<open>*fs.PathError\<close>, \<open>MultiError\<close> is \<^verbatim>\<open>*multierror.Error\<close>, \<open>filepath_SkipDir\<close> is
  the sentinel \<^verbatim>\<open>filepath.SkipDir\<close> that \<^verbatim>\<open>filepath.Walk\<close> reads as an instruction,
  \<open>S3Error code\<close> is a \<^verbatim>\<open>minio.ErrorResponse\<close> with that code, \<open>Other\<close> is any other
  error of a caller (a reader, a callback). \<open>RuntimePanic\<close> stands for a run-time panic:
  the call does not return normally.
\<close>

datatype error =
    ErrNotExist
  | errInvalidHash
  | os_ErrNotExist
  | os_ErrClosed
  | io_EOF
  | Errno errno
  | PathError string string error
  | Wrapf string error
  | MultiError "error list"
  | filepath_SkipDir
  | S3Error string
  | Other string
  | RuntimePanic string

text \<open>
  \<^verbatim>\<open>errors.Is(err, target)\<close>: walks the chain of \<^verbatim>\<open>Unwrap\<close>, comparing each error with
  the target and asking its \<^verbatim>\<open>Is\<close> method; \<^verbatim>\<open>syscall.Errno.Is\<close> answers for the
  sentinels of package \<^verbatim>\<open>os\<close> only.
\<close>

fun errors_Is :: "error \<Rightarrow> error \<Rightarrow> bool" where
  "errors_Is (Wrapf m e) t = (t = Wrapf m e \<or> errors_Is e t)"
| "errors_Is (PathError op p e) t = (t = PathError op p e \<or> errors_Is e t)"
| "errors_Is (MultiError es) t = (t = MultiError es \<or> (\<exists>e \<in> set es. errors_Is e t))"
| "errors_Is (Errno en) t = (t = Errno en \<or> (t = os_ErrNotExist \<and> en = ENOENT))"
| "errors_Is e t = (t = e)"

text \<open>\<^verbatim>\<open>multierror.Append(err, e)\<close> with one new error.\<close>

definition multierror_Append :: "error option \<Rightarrow> error \<Rightarrow> error" where
  "multierror_Append err e =
     (case err of
        None \<Rightarrow> MultiError [e]
      | Some (MultiError es) \<Rightarrow> MultiError (es @ [e])
      | Some x \<Rightarrow> MultiError [x, e])"

text \<open>
  An \<^verbatim>\<open>io.Reader\<close>: the bytes it still has to deliver, and how the stream ends
  (\<open>None\<close> is \<^verbatim>\<open>io.EOF\<close>, \<open>Some e\<close> a read error after the bytes).
\<close>

datatype reader = Reader (rdata: "byte list") (rerr: "error option")

text \<open>\<^verbatim>\<open>strings.NewReader\<close> / \<^verbatim>\<open>bytes.NewReader\<close>: a reader that cannot fail.\<close>

definition NewReader :: "byte list \<Rightarrow> reader" where
  "NewReader b = Reader b None"

text \<open>\<^verbatim>\<open>io.ReadAll\<close>: the bytes read, the error, and the reader left drained.\<close>

definition io_ReadAll :: "reader \<Rightarrow> (byte list \<times> error option) \<times> reader" where
  "io_ReadAll r = ((rdata r, rerr r), Reader [] (rerr r))"

section \<open>The in-memory backend (package memory)\<close>

text \<open>The struct \<^verbatim>\<open>memory.Filestore\<close>; its mutex has no role in a sequential run.\<close>

record memory_Filestore =
  files :: "string \<rightharpoonup> byte list"

definition memory_NewFilestore :: memory_Filestore where
  "memory_NewFilestore = \<lparr>files = Map.empty\<rparr>"

definition memory_Store ::
  "digest \<Rightarrow> memory_Filestore \<Rightarrow> reader \<Rightarrow>
     (string \<times> error option) \<times> memory_Filestore \<times> reader" where
  "memory_Store sha256_Sum f r =
     (case io_ReadAll r of
        ((data, Some e), r') \<Rightarrow> (([], Some e), f, r')
      | ((data, None), r') \<Rightarrow>
          (let hash = hex_EncodeToString (sha256_Sum data)
           in ((hash, None), f\<lparr>files := (files f)(hash \<mapsto> data)\<rparr>, r')))"

definition memory_StoreHashed ::
  "memory_Filestore \<Rightarrow> reader \<Rightarrow> string \<Rightarrow> error option \<times> memory_Filestore \<times> reader" where
  "memory_StoreHashed f r hash =
     (case files f hash of
        Some _ \<Rightarrow> (None, f, r)
      | None \<Rightarrow>
          (case io_ReadAll r of
             ((data, Some e), r') \<Rightarrow> (Some e, f, r')
           | ((data, None), r') \<Rightarrow> (None, f\<lparr>files := (files f)(hash \<mapsto> data)\<rparr>, r')))"

definition memory_Exists :: "memory_Filestore \<Rightarrow> string \<Rightarrow> bool \<times> error option" where
  "memory_Exists f hash = (files f hash \<noteq> None, None)"

text \<open>\<open>Fetch\<close> returns a reader over the stored bytes.\<close>

definition memory_Fetch :: "memory_Filestore \<Rightarrow> string \<Rightarrow> error + reader" where
  "memory_Fetch f hash =
     (case files f hash of
        None \<Rightarrow> Inl ErrNotExist
      | Some data \<Rightarrow> Inr (NewReader data))"

definition memory_Remove :: "memory_Filestore \<Rightarrow> string \<Rightarrow> error option \<times> memory_Filestore" where
  "memory_Remove f hash =
     (case files f hash of
        None \<Rightarrow> (Some ErrNotExist, f)
      | Some _ \<Rightarrow> (None, f\<lparr>files := (files f)(hash := None)\<rparr>))"


definition memory_ImgproxyURLSource :: "string \<Rightarrow> string \<times> error option" where
  "memory_ImgproxyURLSource hash = (''memory://'' @ hash, None)"

section \<open>Iteration in batches\<close>

text \<open>
  A callback is a Go closure: it may change state of its own (a counter, a slice it
  appends to), so it takes that state and returns it with its error.
\<close>

type_synonym 's callback = "'s \<Rightarrow> string list \<Rightarrow> error option \<times> 's"

text \<open>
  The loop of \<^verbatim>\<open>memory.Filestore.Iterate\<close> with the code after it: \<open>hashes\<close> is the
  slice being filled, the last argument the keys the \<^verbatim>\<open>range\<close> still has to deliver.
\<close>

fun range_loop :: "int \<Rightarrow> 's callback \<Rightarrow> string list \<Rightarrow> 's \<Rightarrow> string list \<Rightarrow> error option \<times> 's" where
  "range_loop maxBatch callback hashes s [] =
     (if length hashes > 0 then callback s hashes else (None, s))"
| "range_loop maxBatch callback hashes s (hash # rest) =
     (let hashes' = hashes @ [hash] in
      if int (length hashes') = maxBatch then
        (case callback s hashes' of
           (Some err, s') \<Rightarrow> (Some err, s')
         | (None, s') \<Rightarrow> range_loop maxBatch callback [] s' rest)
      else range_loop maxBatch callback hashes' s rest)"

text \<open>
  Go leaves the order of a \<^verbatim>\<open>range\<close> over a map open: \<open>order\<close> is the order of this
  run, an enumeration of the keys. \<^verbatim>\<open>make([]string, 0, maxBatch)\<close> panics when
  \<open>maxBatch\<close> is negative.
\<close>

definition memory_Iterate ::
  "memory_Filestore \<Rightarrow> string list \<Rightarrow> int \<Rightarrow> 's callback \<Rightarrow> 's \<Rightarrow> error option \<times> 's" where
  "memory_Iterate f order maxBatch callback s =
     (if maxBatch < 0 then (Some (RuntimePanic ''makeslice: cap out of range''), s)
      else range_loop maxBatch callback [] s order)"


section \<open>The local backend (package local)\<close>

subsection \<open>The file system\<close>

text \<open>
  The part of the file system the store touches: the staging directory \<^verbatim>\<open>tmpPath\<close>
  with its entries, and the assets directory \<^verbatim>\<open>assetsPath\<close> with its shard
  directories, each holding regular files. Both directories exist (\<open>NewFilestore\<close>
  creates them). A name is one path component: the model covers hashes and shard
  prefixes that are non-empty and hold no \<^verbatim>\<open>/\<close>, as every hex digest and its prefix are.
  A file has its bytes and its permission bits.
\<close>

datatype osfile = File (content: "byte list") (perm: nat)

type_synonym dir = "(string \<times> osfile) list"

record filesys =
  tmpdir :: dir
  assets :: "(string \<times> dir) list"

definition lookup_asset :: "filesys \<Rightarrow> string \<Rightarrow> string \<Rightarrow> osfile option" where
  "lookup_asset fs p h = (case map_of (assets fs) p of None \<Rightarrow> None | Some d \<Rightarrow> map_of d h)"

text \<open>
  Every call into package \<^verbatim>\<open>os\<close> can fail for reasons outside the model (permissions,
  a full disk, I/O errors). Such a failure is an argument \<open>fault\<close> of the call:
  \<open>None\<close> lets the call do its work, \<open>Some en\<close> makes it fail with that errno.
  Permission bits are numbers: 384 is 0600, 420 is 0644.
\<close>

definition os_CreateTemp ::
  "string \<Rightarrow> string list \<Rightarrow> errno option \<Rightarrow> filesys \<Rightarrow> error + (string \<times> filesys)" where
  "os_CreateTemp dirpath rnds fault fs =
     (case fault of
        Some en \<Rightarrow> Inl (PathError ''open'' (dirpath @ ''/image-upload-*'') (Errno en))
      | None \<Rightarrow>
          (case find (\<lambda>n. map_of (tmpdir fs) n = None) (map (\<lambda>r. ''image-upload-'' @ r) rnds) of
             None \<Rightarrow> Inl (PathError ''open'' (dirpath @ ''/image-upload-*'') (Errno EEXIST))
           | Some name \<Rightarrow>
               Inr (name, fs\<lparr>tmpdir := AList.update name (File [] 384) (tmpdir fs)\<rparr>)))"

definition os_Stat ::
  "string \<Rightarrow> errno option \<Rightarrow> filesys \<Rightarrow> string \<Rightarrow> string \<Rightarrow> error + osfile" where
  "os_Stat path fault fs p h =
     (case fault of
        Some en \<Rightarrow> Inl (PathError ''stat'' path (Errno en))
      | None \<Rightarrow>
          (case lookup_asset fs p h of
             None \<Rightarrow> Inl (PathError ''stat'' path (Errno ENOENT))
           | Some x \<Rightarrow> Inr x))"

definition os_Open ::
  "string \<Rightarrow> errno option \<Rightarrow> filesys \<Rightarrow> string \<Rightarrow> string \<Rightarrow> error + osfile" where
  "os_Open path fault fs p h =
     (case fault of
        Some en \<Rightarrow> Inl (PathError ''open'' path (Errno en))
      | None \<Rightarrow>
          (case lookup_asset fs p h of
             None \<Rightarrow> Inl (PathError ''open'' path (Errno ENOENT))
           | Some x \<Rightarrow> Inr x))"

definition os_MkdirAll :: "string \<Rightarrow> errno option \<Rightarrow> filesys \<Rightarrow> string \<Rightarrow> error + filesys" where
  "os_MkdirAll path fault fs p =
     (case fault of
        Some en \<Rightarrow> Inl (PathError ''mkdir'' path (Errno en))
      | None \<Rightarrow>
          (case map_of (assets fs) p of
             Some _ \<Rightarrow> Inr fs
           | None \<Rightarrow> Inr (fs\<lparr>assets := AList.update p [] (assets fs)\<rparr>)))"

text \<open>\<^verbatim>\<open>os.Rename\<close> of a staging entry onto \<^verbatim>\<open>assetsPath/p/h\<close>; it replaces a file there.\<close>

definition os_Rename ::
  "string \<Rightarrow> errno option \<Rightarrow> filesys \<Rightarrow> string \<Rightarrow> string \<Rightarrow> string \<Rightarrow> error + filesys" where
  "os_Rename oldpath fault fs name p h =
     (case fault of
        Some en \<Rightarrow> Inl (PathError ''rename'' oldpath (Errno en))
      | None \<Rightarrow>
          (case map_of (tmpdir fs) name of
             None \<Rightarrow> Inl (PathError ''rename'' oldpath (Errno ENOENT))
           | Some x \<Rightarrow>
               (case map_of (assets fs) p of
                  None \<Rightarrow> Inl (PathError ''rename'' oldpath (Errno ENOENT))
                | Some d \<Rightarrow>
                    Inr (fs\<lparr>tmpdir := AList.delete name (tmpdir fs),
                            assets := AList.update p (AList.update h x d) (assets fs)\<rparr>))))"

definition os_Chmod ::
  "string \<Rightarrow> errno option \<Rightarrow> filesys \<Rightarrow> string \<Rightarrow> string \<Rightarrow> nat \<Rightarrow> error + filesys" where
  "os_Chmod path fault fs p h m =
     (case fault of
        Some en \<Rightarrow> Inl (PathError ''chmod'' path (Errno en))
      | None \<Rightarrow>
          (case map_of (assets fs) p of
             None \<Rightarrow> Inl (PathError ''chmod'' path (Errno ENOENT))
           | Some d \<Rightarrow>
               (case map_of d h of
                  None \<Rightarrow> Inl (PathError ''chmod'' path (Errno ENOENT))
                | Some x \<Rightarrow>
                    Inr (fs\<lparr>assets :=
                              AList.update p (AList.update h (File (content x) m) d) (assets fs)\<rparr>))))"

definition os_Remove_tmp :: "string \<Rightarrow> errno option \<Rightarrow> filesys \<Rightarrow> string \<Rightarrow> error + filesys" where
  "os_Remove_tmp path fault fs name =
     (case fault of
        Some en \<Rightarrow> Inl (PathError ''remove'' path (Errno en))
      | None \<Rightarrow>
          (case map_of (tmpdir fs) name of
             None \<Rightarrow> Inl (PathError ''remove'' path (Errno ENOENT))
           | Some _ \<Rightarrow> Inr (fs\<lparr>tmpdir := AList.delete name (tmpdir fs)\<rparr>)))"

definition os_Remove_file ::
  "string \<Rightarrow> errno option \<Rightarrow> filesys \<Rightarrow> string \<Rightarrow> string \<Rightarrow> error + filesys" where
  "os_Remove_file path fault fs p h =
     (case fault of
        Some en \<Rightarrow> Inl (PathError ''remove'' path (Errno en))
      | None \<Rightarrow>
          (case map_of (assets fs) p of
             None \<Rightarrow> Inl (PathError ''remove'' path (Errno ENOENT))
           | Some d \<Rightarrow>
               (case map_of d h of
                  None \<Rightarrow> Inl (PathError ''remove'' path (Errno ENOENT))
                | Some _ \<Rightarrow> Inr (fs\<lparr>assets := AList.update p (AList.delete h d) (assets fs)\<rparr>))))"

definition os_Open_dir :: "string \<Rightarrow> errno option \<Rightarrow> filesys \<Rightarrow> string \<Rightarrow> error + dir" where
  "os_Open_dir path fault fs p =
     (case fault of
        Some en \<Rightarrow> Inl (PathError ''open'' path (Errno en))
      | None \<Rightarrow>
          (case map_of (assets fs) p of
             None \<Rightarrow> Inl (PathError ''open'' path (Errno ENOENT))
           | Some d \<Rightarrow> Inr d))"

text \<open>\<^verbatim>\<open>dir.Readdirnames(1)\<close>: one name, or \<^verbatim>\<open>io.EOF\<close> for an empty directory.\<close>

definition Readdirnames1 :: "string \<Rightarrow> errno option \<Rightarrow> dir \<Rightarrow> error + string list" where
  "Readdirnames1 path fault d =
     (case fault of
        Some en \<Rightarrow> Inl (PathError ''readdirent'' path (Errno en))
      | None \<Rightarrow> (if d = [] then Inl io_EOF else Inr (take 1 (map fst d))))"

definition os_Remove_dir :: "string \<Rightarrow> errno option \<Rightarrow> filesys \<Rightarrow> string \<Rightarrow> error + filesys" where
  "os_Remove_dir path fault fs p =
     (case fault of
        Some en \<Rightarrow> Inl (PathError ''remove'' path (Errno en))
      | None \<Rightarrow>
          (case map_of (assets fs) p of
             None \<Rightarrow> Inl (PathError ''remove'' path (Errno ENOENT))
           | Some d \<Rightarrow>
               (if d = [] then Inr (fs\<lparr>assets := AList.delete p (assets fs)\<rparr>)
                else Inl (PathError ''remove'' path (Errno ENOTEMPTY)))))"

text \<open>
  \<^verbatim>\<open>io.Copy(digest, io.TeeReader(r, tempFile))\<close>: what is read goes to the staging file
  and to the digest. A write fault \<open>(n, en)\<close> lets \<open>n\<close> bytes reach the file and fails
  then; otherwise the stream ends as the reader says.
\<close>

definition io_Copy_tee ::
  "reader \<Rightarrow> string \<Rightarrow> (nat \<times> errno) option \<Rightarrow> filesys \<Rightarrow> string \<Rightarrow> error option \<times> filesys" where
  "io_Copy_tee r path wfault fs name =
     (let data = rdata r;
          res = (case wfault of
                   Some (n, en) \<Rightarrow>
                     if n < length data
                     then (take n data, Some (PathError ''write'' path (Errno en)))
                     else (data, rerr r)
                 | None \<Rightarrow> (data, rerr r))
      in (snd res, fs\<lparr>tmpdir := AList.update name (File (fst res) 384) (tmpdir fs)\<rparr>))"

subsection \<open>The store\<close>

record local_Filestore =
  tmpPath :: string
  assetsPath :: string
  TargetFileMode :: nat
  PrefixSize :: int

definition DefaultPrefixSize :: int where
  "DefaultPrefixSize = 2"

definition DefaultTargetFileMode :: nat where
  "DefaultTargetFileMode = 420"

text \<open>\<open>NewFilestore\<close>; the two faults are those of its two \<^verbatim>\<open>os.MkdirAll\<close>.\<close>

definition local_NewFilestore ::
  "errno option \<Rightarrow> errno option \<Rightarrow> string \<Rightarrow> string \<Rightarrow> error + local_Filestore" where
  "local_NewFilestore fault1 fault2 tmp assetsdir =
     (case fault1 of
        Some en \<Rightarrow> Inl (Wrapf ''creating tmp folder'' (PathError ''mkdir'' tmp (Errno en)))
      | None \<Rightarrow>
          (case fault2 of
             Some en \<Rightarrow> Inl (Wrapf ''creating assets folder'' (PathError ''mkdir'' assetsdir (Errno en)))
           | None \<Rightarrow>
               Inr \<lparr>tmpPath = tmp, assetsPath = assetsdir,
                    TargetFileMode = DefaultTargetFileMode, PrefixSize = DefaultPrefixSize\<rparr>))"

text \<open>
  \<open>prefixPath\<close>: \<^verbatim>\<open>hash[0:f.PrefixSize]\<close> after the length check. With a negative
  \<open>PrefixSize\<close> the check passes and the slice expression panics.
\<close>

definition prefixPath :: "local_Filestore \<Rightarrow> string \<Rightarrow> error + string" where
  "prefixPath f hash =
     (if int (length hash) < PrefixSize f then Inl errInvalidHash
      else if PrefixSize f < 0 then Inl (RuntimePanic ''slice bounds out of range'')
      else Inr (take (nat (PrefixSize f)) hash))"

definition is_panic :: "error \<Rightarrow> bool" where
  "is_panic e = (case e of RuntimePanic _ \<Rightarrow> True | _ \<Rightarrow> False)"

definition temp_path :: "local_Filestore \<Rightarrow> string \<Rightarrow> string" where
  "temp_path f name = tmpPath f @ ''/'' @ name"

definition shard_path :: "local_Filestore \<Rightarrow> string \<Rightarrow> string" where
  "shard_path f p = assetsPath f @ ''/'' @ p"

definition target_path :: "local_Filestore \<Rightarrow> string \<Rightarrow> string \<Rightarrow> string" where
  "target_path f p h = assetsPath f @ ''/'' @ p @ ''/'' @ h"

text \<open>
  The faults of one call of \<open>Store\<close>, one for each call into the operating system, and
  the random suffixes \<^verbatim>\<open>os.CreateTemp\<close> tries for the staging name.
\<close>

record store_faults =
  rnd_names :: "string list"
  createTemp_fault :: "errno option"
  write_fault :: "(nat \<times> errno) option"
  close_fault :: "errno option"
  stat_fault :: "errno option"
  mkdirAll_fault :: "errno option"
  rename_fault :: "errno option"
  chmod_fault :: "errno option"
  defer_close_fault :: "errno option"
  defer_remove_fault :: "errno option"

definition no_faults :: "string list \<Rightarrow> store_faults" where
  "no_faults rnds =
     \<lparr>rnd_names = rnds, createTemp_fault = None, write_fault = None, close_fault = None,
      stat_fault = None, mkdirAll_fault = None, rename_fault = None, chmod_fault = None,
      defer_close_fault = None, defer_remove_fault = None\<rparr>"

text \<open>
  The deferred function of \<open>Store\<close>. \<open>closeCalled\<close> says that \<^verbatim>\<open>tempFile.Close\<close> has
  run before (and failed, since \<open>tmpWasClosed\<close> is still false): a second \<^verbatim>\<open>Close\<close> of
  an \<^verbatim>\<open>*os.File\<close> fails with \<^verbatim>\<open>os.ErrClosed\<close>. \<open>ret\<close> holds the named results
  \<open>(hash, err)\<close>, which the function may change.
\<close>

definition Store_deferred ::
  "local_Filestore \<Rightarrow> store_faults \<Rightarrow> string \<Rightarrow> bool \<Rightarrow> bool \<Rightarrow> bool \<Rightarrow>
     string \<times> error option \<Rightarrow> filesys \<Rightarrow> (string \<times> error option) \<times> filesys" where
  "Store_deferred f flt name tmpWasClosed closeCalled tmpWasRenamed ret fs =
     (case (if tmpWasClosed then None
            else if closeCalled then Some (PathError ''close'' (temp_path f name) os_ErrClosed)
            else map_option (\<lambda>en. PathError ''close'' (temp_path f name) (Errno en))
                   (defer_close_fault flt)) of
        Some closeErr \<Rightarrow>
          ((fst ret,
            Some (multierror_Append (snd ret)
                    (Wrapf ''closing temporary file (with previous error)'' closeErr))), fs)
      | None \<Rightarrow>
          (if \<not> tmpWasRenamed then
             (case os_Remove_tmp (temp_path f name) (defer_remove_fault flt) fs name of
                Inl removeErr \<Rightarrow>
                  ((fst ret,
                    Some (multierror_Append (snd ret)
                            (Wrapf ''removing temporary file (with previous error)'' removeErr))), fs)
              | Inr fs' \<Rightarrow> (ret, fs'))
           else (ret, fs)))"

text \<open>
  \<open>Store\<close>. Every \<^verbatim>\<open>return\<close> after the \<^verbatim>\<open>defer\<close> statement goes through
  \<open>Store_deferred\<close>; a panic of \<open>prefixPath\<close> runs it too and goes on as a panic.
\<close>

definition local_Store ::
  "digest \<Rightarrow> local_Filestore \<Rightarrow> store_faults \<Rightarrow> filesys \<Rightarrow> reader \<Rightarrow>
     (string \<times> error option) \<times> filesys" where
  "local_Store sha256_Sum f flt fs r =
     (case os_CreateTemp (tmpPath f) (rnd_names flt) (createTemp_fault flt) fs of
        Inl err \<Rightarrow> (([], Some (Wrapf ''creating temp file'' err)), fs)
      | Inr (name, fs1) \<Rightarrow>
          (case io_Copy_tee r (temp_path f name) (write_fault flt) fs1 name of
             (Some err, fs2) \<Rightarrow>
               Store_deferred f flt name False False False
                 ([], Some (Wrapf ''copying reader'' err)) fs2
           | (None, fs2) \<Rightarrow>
               (let hashHex = hex_EncodeToString (sha256_Sum (rdata r)) in
                case prefixPath f hashHex of
                  Inl err \<Rightarrow>
                    (case Store_deferred f flt name False False False ([], Some err) fs2 of
                       (ret, fs3) \<Rightarrow> ((if is_panic err then ([], Some err) else ret), fs3))
                | Inr pathPrefix \<Rightarrow>
                    (case close_fault flt of
                       Some en \<Rightarrow>
                         Store_deferred f flt name False True False
                           ([], Some (Wrapf ''closing temp file''
                                        (PathError ''close'' (temp_path f name) (Errno en)))) fs2
                     | None \<Rightarrow>
                         (let targetPath = target_path f pathPrefix hashHex in
                          case os_Stat targetPath (stat_fault flt) fs2 pathPrefix hashHex of
                            Inr _ \<Rightarrow>
                              Store_deferred f flt name True True False (hashHex, None) fs2
                          | Inl _ \<Rightarrow>
                              (case os_MkdirAll (shard_path f pathPrefix) (mkdirAll_fault flt)
                                      fs2 pathPrefix of
                                 Inl err \<Rightarrow>
                                   Store_deferred f flt name True True False
                                     ([], Some (Wrapf ''creating asset subdirectory'' err)) fs2
                               | Inr fs3 \<Rightarrow>
                                   (case os_Rename (temp_path f name) (rename_fault flt)
                                           fs3 name pathPrefix hashHex of
                                      Inl err \<Rightarrow>
                                        Store_deferred f flt name True True False
                                          ([], Some (Wrapf ''renaming temp file'' err)) fs3
                                    | Inr fs4 \<Rightarrow>
                                        (case os_Chmod targetPath (chmod_fault flt) fs4
                                                pathPrefix hashHex (TargetFileMode f) of
                                           Inl err \<Rightarrow>
                                             Store_deferred f flt name True True True
                                               ([], Some (Wrapf ''setting file mode'' err)) fs4
                                         | Inr fs5 \<Rightarrow>
                                             Store_deferred f flt name True True True
                                               (hashHex, None) fs5))))))))"

text \<open>\<open>Fetch\<close> returns the opened file, a reader over its bytes.\<close>

definition local_Fetch ::
  "local_Filestore \<Rightarrow> errno option \<Rightarrow> filesys \<Rightarrow> string \<Rightarrow> error + reader" where
  "local_Fetch f fault fs hash =
     (case prefixPath f hash of
        Inl err \<Rightarrow> Inl err
      | Inr p \<Rightarrow>
          (case os_Open (target_path f p hash) fault fs p hash of
             Inl err \<Rightarrow>
               (if errors_Is err os_ErrNotExist then Inl ErrNotExist
                else Inl (Wrapf ''opening file'' err))
           | Inr x \<Rightarrow> Inr (NewReader (content x))))"

definition local_ImgproxyURLSource :: "local_Filestore \<Rightarrow> string \<Rightarrow> string \<times> error option" where
  "local_ImgproxyURLSource f hash =
     (case prefixPath f hash of
        Inl err \<Rightarrow> ([], Some err)
      | Inr p \<Rightarrow> (''local:///'' @ p @ ''/'' @ hash, None))"

record remove_faults =
  remove_file_fault :: "errno option"
  open_dir_fault :: "errno option"
  readdir_fault :: "errno option"
  remove_dir_fault :: "errno option"

definition no_remove_faults :: remove_faults where
  "no_remove_faults =
     \<lparr>remove_file_fault = None, open_dir_fault = None, readdir_fault = None,
      remove_dir_fault = None\<rparr>"

definition local_Remove ::
  "local_Filestore \<Rightarrow> remove_faults \<Rightarrow> filesys \<Rightarrow> string \<Rightarrow> error option \<times> filesys" where
  "local_Remove f flt fs hash =
     (case prefixPath f hash of
        Inl err \<Rightarrow> (Some err, fs)
      | Inr p \<Rightarrow>
          (let dirName = shard_path f p;
               fileName = dirName @ ''/'' @ hash in
           case os_Remove_file fileName (remove_file_fault flt) fs p hash of
             Inl err \<Rightarrow> (Some (Wrapf ''removing file'' err), fs)
           | Inr fs1 \<Rightarrow>
               (case os_Open_dir dirName (open_dir_fault flt) fs1 p of
                  Inl err \<Rightarrow> (Some (Wrapf ''opening directory'' err), fs1)
                | Inr d \<Rightarrow>
                    (case Readdirnames1 dirName (readdir_fault flt) d of
                       Inl err \<Rightarrow>
                         (if errors_Is err io_EOF then
                            (case os_Remove_dir dirName (remove_dir_fault flt) fs1 p of
                               Inl err' \<Rightarrow> (Some (Wrapf ''removing empty directory'' err'), fs1)
                             | Inr fs2 \<Rightarrow> (None, fs2))
                          else (Some (Wrapf ''reading directory'' err), fs1))
                     | Inr _ \<Rightarrow> (None, fs1)))))"


subsection \<open>Iterate over the assets directory\<close>

text \<open>
  \<^verbatim>\<open>filepath.Walk\<close> visits the root, then every shard directory in lexical order and
  the files of each in lexical order, calling the function literal of \<open>Iterate\<close> for
  every entry. A fault \<open>(name, en)\<close> makes the walk report that error for the entry of
  that name. \<open>walkFn\<close> is the function literal: it works on the captured slice
  \<open>hashes\<close> and returns it with its error.
\<close>

definition entry_err :: "(string \<times> errno) option \<Rightarrow> string \<Rightarrow> error option" where
  "entry_err wflt name =
     (case wflt of
        None \<Rightarrow> None
      | Some (n, en) \<Rightarrow> if n = name then Some (PathError ''lstat'' name (Errno en)) else None)"

definition walkFn ::
  "int \<Rightarrow> 's callback \<Rightarrow> string list \<Rightarrow> 's \<Rightarrow> string \<Rightarrow> bool \<Rightarrow> error option \<Rightarrow>
     error option \<times> string list \<times> 's" where
  "walkFn maxBatch callback hashes s name isDir err =
     (case err of
        Some e \<Rightarrow> (Some e, hashes, s)
      | None \<Rightarrow>
          (if isDir then (None, hashes, s)
           else
             (case name of
                [] \<Rightarrow> (Some (RuntimePanic ''index out of range''), hashes, s)
              | c # _ \<Rightarrow>
                  (if c = CHR ''.'' then (None, hashes, s)
                   else
                     (let hashes' = hashes @ [name] in
                      if int (length hashes') = maxBatch then
                        (case callback s hashes' of
                           (Some e, s') \<Rightarrow> (Some e, hashes', s')
                         | (None, s') \<Rightarrow> (None, [], s'))
                      else (None, hashes', s))))))"

text \<open>The files of one shard directory: the first error ends the loop and is returned.\<close>

fun walk_files ::
  "int \<Rightarrow> 's callback \<Rightarrow> (string \<times> errno) option \<Rightarrow> string list \<Rightarrow> 's \<Rightarrow> string list \<Rightarrow>
     error option \<times> string list \<times> 's" where
  "walk_files maxBatch callback wflt hashes s [] = (None, hashes, s)"
| "walk_files maxBatch callback wflt hashes s (name # rest) =
     (case walkFn maxBatch callback hashes s name False (entry_err wflt name) of
        (Some e, hashes', s') \<Rightarrow> (Some e, hashes', s')
      | (None, hashes', s') \<Rightarrow> walk_files maxBatch callback wflt hashes' s' rest)"

text \<open>
  The shard directories. \<^verbatim>\<open>filepath.SkipDir\<close> coming back from a file ends the walk of
  its directory only: the walk goes on with the next directory.
\<close>

fun walk_dirs ::
  "int \<Rightarrow> 's callback \<Rightarrow> (string \<times> errno) option \<Rightarrow> string list \<Rightarrow> 's \<Rightarrow> (string \<times> dir) list \<Rightarrow>
     error option \<times> string list \<times> 's" where
  "walk_dirs maxBatch callback wflt hashes s [] = (None, hashes, s)"
| "walk_dirs maxBatch callback wflt hashes s ((p, d) # rest) =
     (case walkFn maxBatch callback hashes s p True (entry_err wflt p) of
        (Some e, hashes', s') \<Rightarrow> (Some e, hashes', s')
      | (None, hashes', s') \<Rightarrow>
          (case walk_files maxBatch callback wflt hashes' s' (sort (map fst d)) of
             (Some e, hashes'', s'') \<Rightarrow>
               (if e = filepath_SkipDir then walk_dirs maxBatch callback wflt hashes'' s'' rest
                else (Some e, hashes'', s''))
           | (None, hashes'', s'') \<Rightarrow> walk_dirs maxBatch callback wflt hashes'' s'' rest))"

definition filepath_Walk ::
  "int \<Rightarrow> 's callback \<Rightarrow> (string \<times> errno) option \<Rightarrow> local_Filestore \<Rightarrow> filesys \<Rightarrow> 's \<Rightarrow>
     error option \<times> string list \<times> 's" where
  "filepath_Walk maxBatch callback wflt f fs s =
     (case walkFn maxBatch callback [] s (assetsPath f) True (entry_err wflt (assetsPath f)) of
        (Some e, hashes, s') \<Rightarrow> (Some e, hashes, s')
      | (None, hashes, s') \<Rightarrow>
          (case walk_dirs maxBatch callback wflt hashes s' (sort_key fst (assets fs)) of
             (Some e, hashes', s'') \<Rightarrow>
               (if e = filepath_SkipDir then (None, hashes', s'') else (Some e, hashes', s''))
           | (None, hashes', s'') \<Rightarrow> (None, hashes', s'')))"

definition local_Iterate ::
  "local_Filestore \<Rightarrow> (string \<times> errno) option \<Rightarrow> filesys \<Rightarrow> int \<Rightarrow> 's callback \<Rightarrow> 's \<Rightarrow>
     error option \<times> 's" where
  "local_Iterate f wflt fs maxBatch callback s =
     (if maxBatch < 0 then (Some (RuntimePanic ''makeslice: cap out of range''), s)
      else
        (case filepath_Walk maxBatch callback wflt f fs s of
           (Some err, hashes, s') \<Rightarrow> (Some err, s')
         | (None, hashes, s') \<Rightarrow>
             (if length hashes > 0 then callback s' hashes else (None, s'))))"

text \<open>The names the walk hands to the batches when nothing fails: files not hidden.\<close>

definition visible :: "string \<Rightarrow> bool" where
  "visible name \<longleftrightarrow> name \<noteq> [] \<and> hd name \<noteq> CHR ''.''"

definition walk_names :: "filesys \<Rightarrow> string list" where
  "walk_names fs =
     concat (map (\<lambda>(p, d). filter visible (sort (map fst d))) (sort_key fst (assets fs)))"

section \<open>The object-store backend (package s3)\<close>

text \<open>
  The bucket behind the MinIO client, as a map from object keys to bytes. A call of the
  client can fail for reasons outside the model: the fault of the call.
\<close>

type_synonym bucket = "string \<rightharpoonup> byte list"

definition s3_StatObject :: "error option \<Rightarrow> bucket \<Rightarrow> string \<Rightarrow> error option" where
  "s3_StatObject fault b key =
     (case fault of
        Some e \<Rightarrow> Some e
      | None \<Rightarrow> (if b key = None then Some (S3Error ''NoSuchKey'') else None))"

definition s3_PutObject ::
  "error option \<Rightarrow> bucket \<Rightarrow> string \<Rightarrow> reader \<Rightarrow> error option \<times> bucket \<times> reader" where
  "s3_PutObject fault b key r =
     (case fault of
        Some e \<Rightarrow> (Some e, b, r)
      | None \<Rightarrow>
          (case io_ReadAll r of
             ((data, Some e), r') \<Rightarrow> (Some e, b, r')
           | ((data, None), r') \<Rightarrow> (None, b(key \<mapsto> data), r')))"

definition s3_StoreHashed ::
  "error option \<Rightarrow> error option \<Rightarrow> bucket \<Rightarrow> reader \<Rightarrow> string \<Rightarrow>
     error option \<times> bucket \<times> reader" where
  "s3_StoreHashed stat_flt put_flt b r hash =
     (case s3_StatObject stat_flt b hash of
        None \<Rightarrow> (None, b, r)
      | Some _ \<Rightarrow>
          (case s3_PutObject put_flt b hash r of
             (Some err, b', r') \<Rightarrow> (Some (Wrapf ''putting object'' err), b', r')
           | (None, b', r') \<Rightarrow> (None, b', r')))"




section \<open>Observing a callback\<close>

text \<open>
  \<open>logged callback\<close> is the callback with a record of its invocations in front of its
  state: every call appends the batch it was given and the error it returned.
\<close>

definition logged ::
  "'s callback \<Rightarrow> ((string list \<times> error option) list \<times> 's) callback" where
  "logged callback =
     (\<lambda>(log, s) hashes.
        case callback s hashes of (e, s') \<Rightarrow> (e, (log @ [(hashes, e)], s')))"

section \<open>Sequences of operations on the in-memory store\<close>

datatype memory_op = OpStore reader | OpRemove string

fun memory_apply :: "digest \<Rightarrow> memory_Filestore \<Rightarrow> memory_op \<Rightarrow> memory_Filestore" where
  "memory_apply sha256_Sum f (OpStore r) = fst (snd (memory_Store sha256_Sum f r))"
| "memory_apply sha256_Sum f (OpRemove h) = snd (memory_Remove f h)"

definition memory_run :: "digest \<Rightarrow> memory_Filestore \<Rightarrow> memory_op list \<Rightarrow> memory_Filestore" where
  "memory_run sha256_Sum f ops = foldl (memory_apply sha256_Sum) f ops"

text \<open>Content addressing: every key is the hash of the bytes stored under it.\<close>

definition content_addressed :: "digest \<Rightarrow> memory_Filestore \<Rightarrow> bool" where
  "content_addressed sha256_Sum f \<longleftrightarrow>
     (\<forall>k data. files f k = Some data \<longrightarrow> k = content_hash sha256_Sum data)"

section \<open>The older local store of the root package (type Local)\<close>

text \<open>
  The root package holds an earlier \<open>Local\<close> with the same fields. Its \<open>prefixPath\<close>
  slices without a check and so panics where the slice is out of range; its
  \<open>ImgproxyURLSource\<close> compares the length of the hash with the constant 2.
\<close>

definition Local_prefixPath :: "local_Filestore \<Rightarrow> string \<Rightarrow> error + string" where
  "Local_prefixPath f hash =
     (if PrefixSize f < 0 \<or> int (length hash) < PrefixSize f
      then Inl (RuntimePanic ''slice bounds out of range'')
      else Inr (take (nat (PrefixSize f)) hash))"

definition Local_ImgproxyURLSource :: "local_Filestore \<Rightarrow> string \<Rightarrow> string \<times> error option" where
  "Local_ImgproxyURLSource f hash =
     (if length hash < 2 then ([], Some (Other ''empty hash''))
      else
        (case Local_prefixPath f hash of
           Inl err \<Rightarrow> ([], Some err)
         | Inr p \<Rightarrow> (''local:///'' @ p @ ''/'' @ hash, None)))"

section \<open>Batches as the specification words them\<close>

text \<open>
  The specification speaks of full batches followed by one trailing partial batch:
  \<open>chunks k xs\<close> cuts \<open>xs\<close> that way. \<open>run_batches\<close> hands the batches to the
  callback one after the other and stops at the first error.
\<close>

function chunks :: "nat \<Rightarrow> 'a list \<Rightarrow> 'a list list" where
  "chunks k xs = (if k = 0 \<or> xs = [] then [] else take k xs # chunks k (drop k xs))"
  by pat_completeness auto
termination
  by (relation "measure (\<lambda>(k, xs). length xs)") auto

fun run_batches :: "'s callback \<Rightarrow> 's \<Rightarrow> string list list \<Rightarrow> error option \<times> 's" where
  "run_batches callback s [] = (None, s)"
| "run_batches callback s (b # bs) =
     (case callback s b of
        (Some e, s') \<Rightarrow> (Some e, s')
      | (None, s') \<Rightarrow> run_batches callback s' bs)"


text \<open>
  A state of the assets directory as \<open>Store\<close> builds it: names are not repeated
  within a directory, and every file lies in the shard directory of its own prefix.
\<close>

definition sharded :: "local_Filestore \<Rightarrow> filesys \<Rightarrow> bool" where
  "sharded f fs \<longleftrightarrow>
     distinct (map fst (assets fs))
     \<and> (\<forall>(p, d) \<in> set (assets fs).
           distinct (map fst d) \<and> (\<forall>h \<in> set (map fst d). h \<noteq> [] \<and> prefixPath f h = Inr p))"

definition local_hashes :: "filesys \<Rightarrow> string set" where
  "local_hashes fs = {h. visible h \<and> (\<exists>p x. lookup_asset fs p h = Some x)}"


text \<open>
  What a logged run says when the callback may fail: the batches it was called with
  are the first batches of the partition, in order; every call before the last
  returned no error; a run that returns no error has visited every batch; a run that
  returns an error returns the error of its last call.
\<close>

definition stops_at_first_error ::
  "string list list \<Rightarrow> error option \<Rightarrow> (string list \<times> error option) list \<Rightarrow> bool" where
  "stops_at_first_error batches res log \<longleftrightarrow>
     map fst log = take (length log) batches
     \<and> (\<forall>i. i + 1 < length log \<longrightarrow> snd (log ! i) = None)
     \<and> (case res of
           None \<Rightarrow> length log = length batches \<and> (\<forall>x \<in> set log. snd x = None)
         | Some e \<Rightarrow> log \<noteq> [] \<and> snd (last log) = Some e)"

text \<open>
  What a call of the local \<open>Store\<close> leaves behind, whatever fails. Every asset path
  holds what it held, or it is the target of the stream's hash and holds all bytes of
  the stream. If the call returns an error, no asset path has changed, or the error is
  that of the final \<^verbatim>\<open>os.Chmod\<close>. If it returns no error, the hash is the digest of the
  stream, the staging directory is as it was before, and the target exists. If the
  target existed and \<^verbatim>\<open>os.Stat\<close> met no fault, the assets directory is untouched.
\<close>

definition store_post ::
  "digest \<Rightarrow> local_Filestore \<Rightarrow> store_faults \<Rightarrow> filesys \<Rightarrow> reader \<Rightarrow>
     string \<times> error option \<Rightarrow> filesys \<Rightarrow> bool" where
  "store_post sha256_Sum f flt fs r ret fs' \<longleftrightarrow>
     (\<forall>p h. lookup_asset fs' p h = lookup_asset fs p h
         \<or> (rerr r = None \<and> h = content_hash sha256_Sum (rdata r) \<and> prefixPath f h = Inr p
             \<and> (\<exists>m. lookup_asset fs' p h = Some (File (rdata r) m))))
   \<and> (snd ret \<noteq> None \<longrightarrow>
         (\<forall>p h. lookup_asset fs' p h = lookup_asset fs p h)
         \<or> (\<exists>e. snd ret = Some (Wrapf ''setting file mode'' e)))
   \<and> (snd ret = None \<longrightarrow>
         fst ret = content_hash sha256_Sum (rdata r) \<and> rerr r = None
         \<and> map_of (tmpdir fs') = map_of (tmpdir fs)
         \<and> (\<exists>p x. prefixPath f (fst ret) = Inr p \<and> lookup_asset fs' p (fst ret) = Some x))
   \<and> (stat_fault flt = None
        \<and> (\<exists>p x. prefixPath f (content_hash sha256_Sum (rdata r)) = Inr p
                 \<and> lookup_asset fs p (content_hash sha256_Sum (rdata r)) = Some x) \<longrightarrow>
         assets fs' = assets fs)"

text \<open>One of the random suffixes gives a staging name that is not taken.\<close>

definition fresh_name :: "filesys \<Rightarrow> string list \<Rightarrow> bool" where
  "fresh_name fs rnds \<longleftrightarrow>
     (\<exists>n \<in> set rnds. map_of (tmpdir fs) (''image-upload-'' @ n) = None)"

section \<open>A digest for concrete runs\<close>

text \<open>
  Where a theorem is run on a concrete input, the digest argument is \<open>pad32\<close>: the
  first 32 bytes of the input, filled up with zeros. It has the length of a SHA-256
  digest and can be evaluated.
\<close>

definition pad32 :: digest where
  "pad32 m = take 32 (m @ replicate 32 0)"

section \<open>Properties of the encoding\<close>

lemma length_hex_EncodeToString: "length (hex_EncodeToString bs) = 2 * length bs"
  by (induction bs) (simp_all add: hex_EncodeToString_def)

lemma length_content_hash:
  "length (sha256_Sum data) = 32 \<Longrightarrow> length (content_hash sha256_Sum data) = 64"
  by (simp add: content_hash_def length_hex_EncodeToString)

lemma length_pad32: "length (pad32 m) = 32"
  by (simp add: pad32_def)

section \<open>The in-memory store is content-addressed\<close>

lemma memory_Store_inv:
  "content_addressed sha f \<Longrightarrow> content_addressed sha (fst (snd (memory_Store sha f r)))"
  by (auto simp: content_addressed_def memory_Store_def io_ReadAll_def content_hash_def Let_def
      split: option.splits)

lemma memory_Remove_inv:
  "content_addressed sha f \<Longrightarrow> content_addressed sha (snd (memory_Remove f h))"
  by (auto simp: content_addressed_def memory_Remove_def split: option.splits)

lemma memory_apply_inv:
  "content_addressed sha f \<Longrightarrow> content_addressed sha (memory_apply sha f x)"
  by (cases x) (simp_all add: memory_Store_inv memory_Remove_inv)

lemma memory_run_inv:
  "content_addressed sha f \<Longrightarrow> content_addressed sha (memory_run sha f ops)"
  unfolding memory_run_def
  by (induction ops arbitrary: f) (simp_all add: memory_apply_inv)

text \<open>
  Claim C10. The store made by \<open>NewFilestore\<close> is content-addressed, \<open>Store\<close> and
  \<open>Remove\<close> each keep a content-addressed store content-addressed, and so the store
  reached from the empty one by any finite sequence of \<open>Store\<close> and \<open>Remove\<close>
  operations is content-addressed: every key of the map is the lowercase hex digest
  of the bytes stored under it.
\<close>

theorem memory_content_addressed:
  "content_addressed sha256_Sum memory_NewFilestore
   \<and> (content_addressed sha256_Sum f \<longrightarrow>
        content_addressed sha256_Sum (fst (snd (memory_Store sha256_Sum f r))))
   \<and> (content_addressed sha256_Sum f \<longrightarrow> content_addressed sha256_Sum (snd (memory_Remove f h)))
   \<and> content_addressed sha256_Sum (memory_run sha256_Sum memory_NewFilestore ops)"
proof -
  have init: "content_addressed sha256_Sum memory_NewFilestore"
    by (simp add: content_addressed_def memory_NewFilestore_def)
  show ?thesis
    using init memory_Store_inv memory_Remove_inv memory_run_inv [OF init] by blast
qed

theorem memory_content_addressed_witness:
  "files (memory_run pad32 memory_NewFilestore
            [OpStore (NewReader [1, 2, 3]), OpStore (NewReader [4]),
             OpRemove ''0400000000000000000000000000000000000000000000000000000000000000''])
     ''0102030000000000000000000000000000000000000000000000000000000000'' = Some [1, 2, 3]
   \<and> ''0102030000000000000000000000000000000000000000000000000000000000''
       = content_hash pad32 [1, 2, 3]"
proof -
  let ?ops = "[OpStore (NewReader [1, 2, 3]), OpStore (NewReader [4]),
             OpRemove ''0400000000000000000000000000000000000000000000000000000000000000'']"
  let ?h = "''0102030000000000000000000000000000000000000000000000000000000000''"
  have stored: "files (memory_run pad32 memory_NewFilestore ?ops) ?h = Some [1, 2, 3]"
    by code_simp
  have "content_addressed pad32 (memory_run pad32 memory_NewFilestore ?ops)"
    using memory_content_addressed [where ops = ?ops and ?sha256_Sum = pad32] by blast
  with stored have "?h = content_hash pad32 [1, 2, 3]"
    unfolding content_addressed_def by blast
  with stored show ?thesis by blast
qed

section \<open>The locator of the local store\<close>

text \<open>
  Claim C8. For a prefix length that is not negative and every hash string \<open>h\<close>,
  \<open>ImgproxyURLSource\<close> of package local fails exactly when \<open>h\<close> is shorter than
  \<open>PrefixSize\<close>, the error is then \<open>errInvalidHash\<close>, and otherwise the result is
  \<^verbatim>\<open>local:///\<close>, the first \<open>PrefixSize\<close> characters of \<open>h\<close>, a slash and \<open>h\<close>. For
  the store made by \<open>NewFilestore\<close> (prefix length 2) and the hash of the tests the
  result is the locator of the tests. The older \<open>Local\<close> of the root package fails
  and answers on the same hashes when the prefix length is the default.
\<close>

theorem local_ImgproxyURLSource_spec:
  assumes "0 \<le> PrefixSize f"
  shows "(snd (local_ImgproxyURLSource f h) \<noteq> None \<longleftrightarrow> int (length h) < PrefixSize f)
    \<and> (int (length h) < PrefixSize f \<longrightarrow> local_ImgproxyURLSource f h = ([], Some errInvalidHash))
    \<and> (\<not> int (length h) < PrefixSize f \<longrightarrow>
          local_ImgproxyURLSource f h
            = (''local:///'' @ take (nat (PrefixSize f)) h @ ''/'' @ h, None))
    \<and> (local_NewFilestore None None tmp assetsdir = Inr f \<longrightarrow>
          local_ImgproxyURLSource f
            ''9d9595c5d94fb65b824f56e9999527dba9542481580d69feb89056aabaa0aa87''
          = (''local:///9d/9d9595c5d94fb65b824f56e9999527dba9542481580d69feb89056aabaa0aa87'',
             None))
    \<and> (PrefixSize f = DefaultPrefixSize \<longrightarrow>
          (snd (Local_ImgproxyURLSource f h) \<noteq> None \<longleftrightarrow> int (length h) < PrefixSize f)
          \<and> (\<not> int (length h) < PrefixSize f \<longrightarrow>
                Local_ImgproxyURLSource f h = local_ImgproxyURLSource f h))"
  using assms
  by (auto simp: local_ImgproxyURLSource_def prefixPath_def local_NewFilestore_def
      DefaultPrefixSize_def Local_ImgproxyURLSource_def Local_prefixPath_def)

theorem local_ImgproxyURLSource_witness:
  "(0::int) \<le> 2
   \<and> local_ImgproxyURLSource
        \<lparr>tmpPath = ''tmp'', assetsPath = ''assets'', TargetFileMode = 420, PrefixSize = 2\<rparr>
        ''9d9595c5d94fb65b824f56e9999527dba9542481580d69feb89056aabaa0aa87''
      = (''local:///9d/9d9595c5d94fb65b824f56e9999527dba9542481580d69feb89056aabaa0aa87'', None)
   \<and> local_ImgproxyURLSource
        \<lparr>tmpPath = ''tmp'', assetsPath = ''assets'', TargetFileMode = 420, PrefixSize = 2\<rparr>
        ''9'' = ([], Some errInvalidHash)"
  using local_ImgproxyURLSource_spec
    [of "\<lparr>tmpPath = ''tmp'', assetsPath = ''assets'', TargetFileMode = 420, PrefixSize = 2\<rparr>"
        "''9d9595c5d94fb65b824f56e9999527dba9542481580d69feb89056aabaa0aa87''" "''tmp''" "''assets''"]
    local_ImgproxyURLSource_spec
    [of "\<lparr>tmpPath = ''tmp'', assetsPath = ''assets'', TargetFileMode = 420, PrefixSize = 2\<rparr>"
        "''9''" "''tmp''" "''assets''"]
  by simp

section \<open>StoreHashed trusts the hash it is given\<close>

text \<open>
  Claim C9. When an object is stored under \<open>h\<close>, \<open>StoreHashed\<close> of the in-memory store
  returns no error for every reader, leaves the store as it is (the bytes under \<open>h\<close>
  and under every other key) and hands the reader back unread; so does \<open>StoreHashed\<close>
  of the object store when its existence probe answers. When nothing is stored under
  \<open>h\<close>, the bytes of the stream are stored under \<open>h\<close> whatever their digest is: no
  digest is computed.
\<close>

theorem StoreHashed_existing:
  "(files f h = Some c1 \<longrightarrow>
      memory_StoreHashed f r h = (None, f, r)
      \<and> files (fst (snd (memory_StoreHashed f r h))) h = Some c1
      \<and> (\<forall>k. files (fst (snd (memory_StoreHashed f r h))) k = files f k))
   \<and> (b h = Some c1 \<longrightarrow>
      s3_StoreHashed None put_flt b r h = (None, b, r))
   \<and> (files f h = None \<longrightarrow>
      memory_StoreHashed f (NewReader c2) h
        = (None, f\<lparr>files := (files f)(h \<mapsto> c2)\<rparr>, Reader [] None))
   \<and> (b h = None \<longrightarrow>
      s3_StoreHashed None None b (NewReader c2) h = (None, b(h \<mapsto> c2), Reader [] None))"
  by (simp add: memory_StoreHashed_def s3_StoreHashed_def s3_StatObject_def s3_PutObject_def
      io_ReadAll_def NewReader_def)

theorem StoreHashed_existing_witness:
  "[''a0b1c2d3e4f5'' \<mapsto> bytes_of ''Test content''] ''a0b1c2d3e4f5'' = Some (bytes_of ''Test content'')
   \<and> memory_StoreHashed \<lparr>files = [''a0b1c2d3e4f5'' \<mapsto> bytes_of ''Test content'']\<rparr>
        (NewReader (bytes_of ''Updated content'')) ''a0b1c2d3e4f5''
      = (None, \<lparr>files = [''a0b1c2d3e4f5'' \<mapsto> bytes_of ''Test content'']\<rparr>,
         NewReader (bytes_of ''Updated content''))
   \<and> s3_StoreHashed None None [''a0b1c2d3e4f5'' \<mapsto> bytes_of ''Test content'']
        (NewReader (bytes_of ''Updated content'')) ''a0b1c2d3e4f5''
      = (None, [''a0b1c2d3e4f5'' \<mapsto> bytes_of ''Test content''],
         NewReader (bytes_of ''Updated content''))
   \<and> (Map.empty :: string \<rightharpoonup> byte list) ''a0b1c2d3e4f5'' = None
   \<and> memory_StoreHashed \<lparr>files = Map.empty\<rparr> (NewReader (bytes_of ''Test content'')) ''a0b1c2d3e4f5''
      = (None, \<lparr>files = [''a0b1c2d3e4f5'' \<mapsto> bytes_of ''Test content'']\<rparr>, Reader [] None)"
  using StoreHashed_existing
    [of "\<lparr>files = [''a0b1c2d3e4f5'' \<mapsto> bytes_of ''Test content'']\<rparr>" "''a0b1c2d3e4f5''"
        "bytes_of ''Test content''" "NewReader (bytes_of ''Updated content'')"
        "[''a0b1c2d3e4f5'' \<mapsto> bytes_of ''Test content'']" None "bytes_of ''Test content''"]
    StoreHashed_existing
    [of "\<lparr>files = Map.empty\<rparr>" "''a0b1c2d3e4f5''"
        "bytes_of ''Test content''" "NewReader (bytes_of ''Updated content'')"
        "Map.empty" None "bytes_of ''Test content''"]
  by simp

section \<open>The loops of Iterate and the batches of the specification\<close>

declare chunks.simps [simp del]

lemma chunks_Nil [simp]: "chunks k [] = []"
  by (simp add: chunks.simps)

lemma chunks_short: "0 < k \<Longrightarrow> xs \<noteq> [] \<Longrightarrow> length xs \<le> k \<Longrightarrow> chunks k xs = [xs]"
  by (subst chunks.simps) simp

lemma chunks_full:
  "0 < k \<Longrightarrow> length b = k \<Longrightarrow> chunks k (b @ xs) = b # chunks k xs"
  by (subst chunks.simps) auto


lemma length_chunks: "0 < k \<Longrightarrow> length (chunks k xs) = (length xs + k - 1) div k"
proof (induction k xs rule: chunks.induct)
  case (1 k xs)
  show ?case
  proof (cases "xs = []")
    case True
    with 1 show ?thesis by simp
  next
    case False
    with 1 have IH: "length (chunks k (drop k xs)) = (length (drop k xs) + k - 1) div k"
      by simp
    show ?thesis
    proof (cases "length xs \<le> k")
      case True
      with False 1 have "chunks k xs = [xs]" by (simp add: chunks_short)
      moreover from True False 1 have "(length xs + k - 1) div k = 1"
        by (intro div_nat_eqI) (cases xs; simp)+
      ultimately show ?thesis by simp
    next
      case gt: False
      then have "length xs + k - 1 = (length xs - k + k - 1) + k" by simp
      then have "(length xs + k - 1) div k = (length xs - k + k - 1) div k + 1"
        using 1 by (metis div_add_self2 less_numeral_extra(3))
      with IH False 1 show ?thesis by (subst chunks.simps) simp
    qed
  qed
qed


lemma chunks_last:
  "0 < k \<Longrightarrow> xs \<noteq> [] \<Longrightarrow>
   length (last (chunks k xs)) = (if length xs mod k = 0 then k else length xs mod k)"
proof (induction k xs rule: chunks.induct)
  case (1 k xs)
  show ?case
  proof (cases "length xs \<le> k")
    case True
    with 1 have "chunks k xs = [xs]" by (simp add: chunks_short)
    moreover from True 1 have "(if length xs mod k = 0 then k else length xs mod k) = length xs"
      by (cases "length xs = k") auto
    ultimately show ?thesis by simp
  next
    case False
    then have dne: "drop k xs \<noteq> []" by simp
    with 1 have IH: "length (last (chunks k (drop k xs)))
        = (if length (drop k xs) mod k = 0 then k else length (drop k xs) mod k)"
      by simp
    from dne 1(2) have cne: "chunks k (drop k xs) \<noteq> []"
      by (subst chunks.simps) simp
    from False have "length xs mod k = (length xs - k) mod k"
      by (simp add: le_mod_geq)
    with IH cne 1 show ?thesis by (subst chunks.simps) simp
  qed
qed


lemma range_loop_chunks:
  "0 < k \<Longrightarrow> length buf < k \<Longrightarrow>
   range_loop (int k) cb buf s keys = run_batches cb s (chunks k (buf @ keys))"
proof (induction keys arbitrary: buf s)
  case Nil
  then show ?case
    by (cases "buf = []") (auto simp: chunks_short split: prod.splits option.splits)
next
  case (Cons h rest)
  show ?case
  proof (cases "length (buf @ [h]) = k")
    case True
    then have "chunks k (buf @ h # rest) = (buf @ [h]) # chunks k rest"
      using Cons.prems chunks_full [of k "buf @ [h]" rest] by simp
    with True Cons show ?thesis
      by (auto simp: Let_def split: prod.splits option.splits)
  next
    case False
    with Cons.prems have "length (buf @ [h]) < k" by simp
    with Cons.IH [of "buf @ [h]" s] Cons.prems False show ?thesis
      by (simp add: Let_def)
  qed
qed



lemma run_batches_logged:
  "run_batches (logged cb) (log0, s) bs = (res, (log, s')) \<Longrightarrow>
   \<exists>new. log = log0 @ new \<and> map fst new = take (length new) bs
     \<and> (\<forall>i. i + 1 < length new \<longrightarrow> snd (new ! i) = None)
     \<and> (case res of
           None \<Rightarrow> length new = length bs \<and> (\<forall>x \<in> set new. snd x = None)
         | Some e \<Rightarrow> new \<noteq> [] \<and> snd (last new) = Some e)"
proof (induction bs arbitrary: log0 s)
  case Nil
  then show ?case by auto
next
  case (Cons b bs)
  obtain e s1 where cb: "cb s b = (e, s1)" by (cases "cb s b")
  show ?case
  proof (cases e)
    case (Some err)
    with Cons.prems cb have "res = Some err" "log = log0 @ [(b, Some err)]"
      by (auto simp: logged_def)
    then show ?thesis by (intro exI [of _ "[(b, Some err)]"]) simp
  next
    case None
    with Cons.prems cb
    have "run_batches (logged cb) (log0 @ [(b, None)], s1) bs = (res, (log, s'))"
      by (auto simp: logged_def)
    from Cons.IH [OF this] obtain new where new:
      "log = (log0 @ [(b, None)]) @ new" "map fst new = take (length new) bs"
      "\<forall>i. i + 1 < length new \<longrightarrow> snd (new ! i) = None"
      "case res of None \<Rightarrow> length new = length bs \<and> (\<forall>x \<in> set new. snd x = None)
         | Some e \<Rightarrow> new \<noteq> [] \<and> snd (last new) = Some e"
      by blast
    have "\<forall>i. i + 1 < length ((b, None) # new) \<longrightarrow> snd (((b, None) # new) ! i) = None"
    proof (intro allI impI)
      fix i assume "i + 1 < length ((b, None) # new)"
      with new(3) show "snd (((b, None) # new) ! i) = None"
        by (cases i) auto
    qed
    with new show ?thesis
      by (intro exI [of _ "(b, None) # new"]) (auto split: option.splits)
  qed
qed

lemma walk_files_range:
  assumes "[] \<notin> set names"
  shows "range_loop K cb hashes s (filter visible names @ rest)
    = (case walk_files K cb None hashes s names of
         (Some e, hashes', s') \<Rightarrow> (Some e, s')
       | (None, hashes', s') \<Rightarrow> range_loop K cb hashes' s' rest)"
  using assms
proof (induction names arbitrary: hashes s)
  case Nil
  then show ?case by simp
next
  case (Cons n names)
  then obtain c cs where n: "n = c # cs" by (cases n) auto
  show ?case
  proof (cases "c = CHR ''.''")
    case True
    with n Cons show ?thesis
      by (simp add: walkFn_def entry_err_def visible_def)
  next
    case False
    with n Cons show ?thesis
      by (auto simp: walkFn_def entry_err_def visible_def Let_def
          split: prod.splits option.splits)
  qed
qed

lemma walk_files_error:
  assumes "[] \<notin> set names" "\<forall>s hs. fst (cb s hs) \<noteq> Some filepath_SkipDir"
    and "walk_files K cb None hashes s names = (Some e, hashes', s')"
  shows "e \<noteq> filepath_SkipDir"
  using assms
proof (induction names arbitrary: hashes s)
  case Nil
  then show ?case by simp
next
  case (Cons n names)
  then obtain c cs where n: "n = c # cs" by (cases n) auto
  from Cons.prems(2) have nosk: "\<And>s hs x. cb s hs \<noteq> (Some filepath_SkipDir, x)"
    by (metis fst_conv)
  show ?case
  proof (cases "walkFn K cb hashes s n False None")
    case (fields r h1 s1)
    show ?thesis
    proof (cases r)
      case None
      with fields Cons show ?thesis by (simp add: entry_err_def)
    next
      case (Some e')
      with fields Cons.prems(3) have "e = e'" by (simp add: entry_err_def)
      with Some fields n nosk show ?thesis
        by (auto simp: walkFn_def Let_def split: if_splits prod.splits option.splits)
    qed
  qed
qed

lemma walk_dirs_range:
  assumes "\<forall>(p, d) \<in> set ds. [] \<notin> set (map fst d)"
    and "\<forall>s hs. fst (cb s hs) \<noteq> Some filepath_SkipDir"
  shows "range_loop K cb hashes s
           (concat (map (\<lambda>(p, d). filter visible (sort (map fst d))) ds) @ rest)
    = (case walk_dirs K cb None hashes s ds of
         (Some e, hashes', s') \<Rightarrow> (Some e, s')
       | (None, hashes', s') \<Rightarrow> range_loop K cb hashes' s' rest)"
  using assms(1)
proof (induction ds arbitrary: hashes s)
  case Nil
  then show ?case by simp
next
  case (Cons pd ds)
  obtain p d where pd: "pd = (p, d)" by (cases pd)
  with Cons.prems have ne: "[] \<notin> set (sort (map fst d))" by auto
  from Cons.prems have rest_ok: "\<forall>(p, d) \<in> set ds. [] \<notin> set (map fst d)" by simp
  let ?rest = "concat (map (\<lambda>(p, d). filter visible (sort (map fst d))) ds) @ rest"
  have step: "range_loop K cb hashes s (filter visible (sort (map fst d)) @ ?rest)
    = (case walk_files K cb None hashes s (sort (map fst d)) of
         (Some e, hashes', s') \<Rightarrow> (Some e, s')
       | (None, hashes', s') \<Rightarrow> range_loop K cb hashes' s' ?rest)"
    by (rule walk_files_range [OF ne])
  show ?case
  proof (cases "walk_files K cb None hashes s (sort (map fst d))")
    case (fields r h1 s1)
    show ?thesis
    proof (cases r)
      case None
      with fields step pd Cons.IH [OF rest_ok, of h1 s1] show ?thesis
        by (simp add: walkFn_def entry_err_def)
    next
      case (Some e)
      with fields have "e \<noteq> filepath_SkipDir"
        using walk_files_error [OF ne assms(2)] by blast
      with Some fields step pd show ?thesis
        by (simp add: walkFn_def entry_err_def)
    qed
  qed
qed

lemma walk_dirs_error:
  "walk_dirs K cb None hashes s ds = (Some e, hashes', s') \<Longrightarrow> e \<noteq> filepath_SkipDir"
proof (induction ds arbitrary: hashes s)
  case Nil
  then show ?case by simp
next
  case (Cons pd ds)
  obtain p d where pd: "pd = (p, d)" by (cases pd)
  show ?case
  proof (cases "walk_files K cb None hashes s (sort (map fst d))")
    case (fields r h1 s1)
    with Cons pd show ?thesis
      by (cases r) (auto simp: walkFn_def entry_err_def split: if_splits)
  qed
qed

lemma sharded_names: "sharded f fs \<Longrightarrow> \<forall>(p, d) \<in> set (sort_key fst (assets fs)). [] \<notin> set (map fst d)"
  by (fastforce simp: sharded_def)

lemma local_Iterate_range:
  assumes "sharded f fs" "0 \<le> K" "\<forall>s hs. fst (cb s hs) \<noteq> Some filepath_SkipDir"
  shows "local_Iterate f None fs K cb s = range_loop K cb [] s (walk_names fs)"
proof -
  have "range_loop K cb [] s (walk_names fs @ [])
    = (case walk_dirs K cb None [] s (sort_key fst (assets fs)) of
         (Some e, hashes', s') \<Rightarrow> (Some e, s')
       | (None, hashes', s') \<Rightarrow> range_loop K cb hashes' s' [])"
    unfolding walk_names_def
    by (rule walk_dirs_range [OF sharded_names [OF assms(1)] assms(3)])
  moreover have "\<And>e h s'. walk_dirs K cb None [] s (sort_key fst (assets fs)) = (Some e, h, s')
      \<Longrightarrow> e \<noteq> filepath_SkipDir"
    by (rule walk_dirs_error)
  ultimately show ?thesis
    using assms(2)
    by (auto simp: local_Iterate_def filepath_Walk_def walkFn_def entry_err_def
        split: prod.splits option.splits)
qed

lemma distinct_shards:
  assumes "distinct (map fst ds)"
    and "\<forall>(p, d) \<in> set ds. distinct (map fst d) \<and> (\<forall>h \<in> set (map fst d). prefixPath f h = Inr p)"
  shows "distinct (concat (map (\<lambda>(p, d). filter P (sort (map fst d))) ds))"
  using assms
proof (induction ds)
  case Nil
  then show ?case by simp
next
  case (Cons pd ds)
  obtain p d where pd: "pd = (p, d)" by (cases pd)
  from Cons.prems pd have here: "distinct (filter P (sort (map fst d)))" by simp
  from Cons have there: "distinct (concat (map (\<lambda>(p, d). filter P (sort (map fst d))) ds))"
    by simp
  have "set (filter P (sort (map fst d)))
        \<inter> set (concat (map (\<lambda>(p, d). filter P (sort (map fst d))) ds)) = {}"
  proof (rule ccontr)
    assume "\<not> ?thesis"
    then obtain h p' d' where h: "h \<in> set (map fst d)" "(p', d') \<in> set ds" "h \<in> set (map fst d')"
      by auto
    from Cons.prems(2) pd h(1) have "prefixPath f h = Inr p" by auto
    moreover from Cons.prems(2) h(2,3) have "prefixPath f h = Inr p'" by fastforce
    ultimately have "p = p'" by simp
    with h(2) Cons.prems(1) pd show False by force
  qed
  with here there pd show ?case by simp
qed

lemma distinct_walk_names:
  assumes "sharded f fs"
  shows "distinct (walk_names fs)"
proof -
  from assms have "distinct (map fst (sort_key fst (assets fs)))"
    by (simp add: sharded_def distinct_map)
  moreover from assms have "\<forall>(p, d) \<in> set (sort_key fst (assets fs)).
      distinct (map fst d) \<and> (\<forall>h \<in> set (map fst d). prefixPath f h = Inr p)"
    by (fastforce simp: sharded_def)
  ultimately show ?thesis
    unfolding walk_names_def by (rule distinct_shards)
qed

lemma set_walk_names:
  assumes "sharded f fs"
  shows "set (walk_names fs) = local_hashes fs"
proof -
  from assms have d1: "distinct (map fst (assets fs))"
    and d2: "\<And>p d. (p, d) \<in> set (assets fs) \<Longrightarrow> distinct (map fst d)"
    by (auto simp: sharded_def)
  have look: "lookup_asset fs p h = Some x \<longleftrightarrow> (\<exists>d. (p, d) \<in> set (assets fs) \<and> (h, x) \<in> set d)"
    for p h x
  proof -
    have "map_of (assets fs) p = Some d \<longleftrightarrow> (p, d) \<in> set (assets fs)" for d
      using d1 by simp
    moreover have "(p, d) \<in> set (assets fs) \<Longrightarrow> map_of d h = Some x \<longleftrightarrow> (h, x) \<in> set d" for d
      using d2 by simp
    ultimately show ?thesis
      unfolding lookup_asset_def
      by (cases "map_of (assets fs) p") (simp, metis option.simps(5))
  qed
  show ?thesis
    unfolding walk_names_def local_hashes_def look
    by (auto simp: image_iff) force+
qed

lemma card_walk_names: "sharded f fs \<Longrightarrow> length (walk_names fs) = card (local_hashes fs)"
  using distinct_walk_names [of f fs] set_walk_names [of f fs]
  by (metis distinct_card)

lemma range_loop_never_errs:
  assumes "0 < k" "\<forall>s hs. fst (cb s hs) = None"
  shows "\<exists>log s'. range_loop (int k) (logged cb) [] ([], s) keys = (None, (log, s'))
     \<and> map fst log = chunks k keys \<and> (\<forall>x \<in> set log. snd x = None)"
proof -
  obtain res log s' where run: "run_batches (logged cb) ([], s) (chunks k keys) = (res, (log, s'))"
    by (metis surj_pair)
  from run_batches_logged [OF this] obtain new where new:
    "log = [] @ new" "map fst new = take (length new) (chunks k keys)"
    "case res of
       None \<Rightarrow> length new = length (chunks k keys) \<and> (\<forall>x \<in> set new. snd x = None)
     | Some e \<Rightarrow> new \<noteq> [] \<and> snd (last new) = Some e"
    by blast
  have logged_none: "fst (logged cb st hs) = None" for st hs
  proof (cases st)
    case (Pair lg s0)
    from assms(2) have "fst (cb s0 hs) = None" by blast
    with Pair show ?thesis by (cases "cb s0 hs") (simp add: logged_def)
  qed
  have "fst (run_batches (logged cb) st bs) = None" for st bs
  proof (induction bs arbitrary: st)
    case Nil
    then show ?case by simp
  next
    case (Cons b bs)
    then show ?case
      using logged_none [of st b] by (cases "logged cb st b") (auto split: option.splits)
  qed
  with run have "res = None" by (metis fst_conv)
  with new run show ?thesis
    using range_loop_chunks [of k "[]" "logged cb" "([], s)" keys] assms(1) by auto
qed



lemma logged_never_SkipDir:
  fixes cb :: "'s callback"
  shows "\<forall>s hs. fst (cb s hs) \<noteq> Some filepath_SkipDir \<Longrightarrow>
   \<forall>st hs. fst (logged cb st hs) \<noteq> Some filepath_SkipDir"
proof (intro allI)
  fix st :: "(string list \<times> error option) list \<times> 's" and hs
  assume a: "\<forall>s hs. fst (cb s hs) \<noteq> Some filepath_SkipDir"
  obtain lg s0 where st: "st = (lg, s0)" by (cases st)
  from a have "fst (cb s0 hs) \<noteq> Some filepath_SkipDir" by blast
  with st show "fst (logged cb st hs) \<noteq> Some filepath_SkipDir"
    by (cases "cb s0 hs") (simp add: logged_def)
qed




section \<open>A callback that fails\<close>

text \<open>
  When the callback may fail, a run of the in-memory store stops at the first failing
  batch and returns its error (\<open>stops_at_first_error\<close>); so does a run of the local
  store for every error of the callback but \<^verbatim>\<open>filepath.SkipDir\<close>. With 21 keys, batch
  size 5 and a callback that never fails, the callback is called 5 times and the last
  batch holds one hash.
\<close>

lemma range_loop_stops:
  assumes "0 < k" "range_loop (int k) (logged cb) [] ([], s) keys = (res, (log, s'))"
  shows "stops_at_first_error (chunks k keys) res log"
proof -
  from assms have "run_batches (logged cb) ([], s) (chunks k keys) = (res, (log, s'))"
    using range_loop_chunks [of k "[]" "logged cb" "([], s)" keys] by simp
  from run_batches_logged [OF this] show ?thesis
    unfolding stops_at_first_error_def by auto
qed

lemma memory_Iterate_stops:
  assumes "1 \<le> K" "memory_Iterate f order K (logged cb) ([], s) = (res, (log, s'))"
  shows "stops_at_first_error (chunks (nat K) order) res log"
  using assms range_loop_stops [of "nat K" cb s order res log s']
  by (simp add: memory_Iterate_def)

lemma local_Iterate_stops:
  assumes "1 \<le> K" "sharded f fs" "\<forall>s hs. fst (cb s hs) \<noteq> Some filepath_SkipDir"
    and "local_Iterate f None fs K (logged cb) ([], s) = (res, (log, s'))"
  shows "stops_at_first_error (chunks (nat K) (walk_names fs)) res log"
proof -
  from assms(1) have "0 \<le> K" by simp
  from local_Iterate_range [OF assms(2) this logged_never_SkipDir [OF assms(3)]] assms(4)
  have "range_loop K (logged cb) [] ([], s) (walk_names fs) = (res, (log, s'))"
    by simp
  with assms(1) show ?thesis
    using range_loop_stops [of "nat K" cb s "walk_names fs" res log s'] by simp
qed

lemma Iterate_21_by_5:
  assumes "length keys = 21" "\<forall>s hs. fst (cb s hs) = None"
  shows "\<exists>log s'. range_loop 5 (logged cb) [] ([], s) keys = (None, (log, s'))
     \<and> length log = 5 \<and> length (fst (last log)) = 1"
proof -
  from range_loop_never_errs [of 5 cb s keys] assms(2)
  obtain log s' where run: "range_loop 5 (logged cb) [] ([], s) keys = (None, (log, s'))"
    "map fst log = chunks 5 keys"
    by auto
  from assms(1) have ne: "keys \<noteq> []" by auto
  from run(2) have "length log = length (chunks 5 keys)"
    by (metis length_map)
  with assms(1) have len: "length log = 5"
    by (simp add: length_chunks)
  then have "log \<noteq> []" by auto
  then have "fst (last log) = last (map fst log)"
    by (simp add: last_map)
  with run(2) assms(1) ne have "length (fst (last log)) = 1"
    by (simp add: chunks_last)
  with run(1) len show ?thesis by blast
qed

text \<open>
  Claim C5, at the input where the local store leaves it. The assets directory holds
  \<^verbatim>\<open>ab/ab01\<close> and \<^verbatim>\<open>cd/cd03\<close>, the batch size is 1, and the callback returns
  \<^verbatim>\<open>filepath.SkipDir\<close> on its first call and no error afterwards. The walk function
  hands that error to \<^verbatim>\<open>filepath.Walk\<close>, which reads it as its own instruction: the rest
  of directory \<^verbatim>\<open>ab\<close> is skipped, the walk goes on and returns no error. The slice
  is not reset, so the callback is called again, with both hashes, and \<open>Iterate\<close>
  returns no error. The in-memory store, on the same keys and callback, stops after
  the first call and returns the error.
\<close>

theorem local_Iterate_SkipDir:
  "local_Iterate
     \<lparr>tmpPath = ''tmp'', assetsPath = ''assets'', TargetFileMode = 420, PrefixSize = 2\<rparr> None
     \<lparr>tmpdir = [],
      assets = [(''ab'', [(''ab01'', File [1] 420)]), (''cd'', [(''cd03'', File [3] 420)])]\<rparr>
     1 (logged (\<lambda>n hs. (if n = 0 then Some filepath_SkipDir else None, Suc n))) ([], 0)
   = (None, [([''ab01''], Some filepath_SkipDir), ([''ab01'', ''cd03''], None)], 2)
   \<and> memory_Iterate \<lparr>files = map_of [(''ab01'', [1]), (''cd03'', [3])]\<rparr> [''ab01'', ''cd03'']
     1 (logged (\<lambda>n hs. (if n = 0 then Some filepath_SkipDir else None, Suc n))) ([], 0)
   = (Some filepath_SkipDir, [([''ab01''], Some filepath_SkipDir)], 1)"
  by (simp add: local_Iterate_def filepath_Walk_def walkFn_def entry_err_def logged_def Let_def
      memory_Iterate_def)

section \<open>Remove and Fetch\<close>

lemma local_Remove_stored:
  assumes "prefixPath lf h = Inr p" "lookup_asset fs p h = Some x"
  shows "fst (local_Remove lf no_remove_faults fs h) = None
    \<and> lookup_asset (snd (local_Remove lf no_remove_faults fs h)) p h = None"
proof -
  from assms(2) obtain d where d: "map_of (assets fs) p = Some d" "map_of d h = Some x"
    by (auto simp: lookup_asset_def split: option.splits)
  let ?fs1 = "fs\<lparr>assets := AList.update p (AList.delete h d) (assets fs)\<rparr>"
  have rm: "os_Remove_file (shard_path lf p @ ''/'' @ h) None fs p h = Inr ?fs1"
    using d by (simp add: os_Remove_file_def)
  have op: "os_Open_dir (shard_path lf p) None ?fs1 p = Inr (AList.delete h d)"
    by (simp add: os_Open_dir_def update_conv')
  show ?thesis
  proof (cases "AList.delete h d = []")
    case True
    then show ?thesis
      using assms(1) rm op
      by (simp add: local_Remove_def no_remove_faults_def Let_def Readdirnames1_def
          os_Remove_dir_def update_conv' delete_conv' lookup_asset_def)
  next
    case False
    then show ?thesis
      using assms(1) rm op
      by (simp add: local_Remove_def no_remove_faults_def Let_def Readdirnames1_def
          update_conv' delete_conv' lookup_asset_def)
  qed
qed

lemma local_Fetch_absent:
  assumes "prefixPath lf h = Inr p" "lookup_asset fs p h = None"
  shows "local_Fetch lf None fs h = Inl ErrNotExist"
  using assms by (simp add: local_Fetch_def os_Open_def)

lemma local_Remove_absent:
  assumes "\<forall>p. prefixPath lf h = Inr p \<longrightarrow> lookup_asset fs p h = None"
  shows "fst (local_Remove lf flt fs h) \<noteq> None \<and> snd (local_Remove lf flt fs h) = fs
    \<and> (int (length h) < PrefixSize lf \<longrightarrow> fst (local_Remove lf flt fs h) = Some errInvalidHash)"
proof (cases "prefixPath lf h")
  case (Inl e)
  then show ?thesis
    by (auto simp: local_Remove_def prefixPath_def split: if_splits)
next
  case (Inr p)
  with assms have "lookup_asset fs p h = None" by simp
  then have "\<exists>e. os_Remove_file (shard_path lf p @ ''/'' @ h) (remove_file_fault flt) fs p h = Inl e"
    by (auto simp: os_Remove_file_def lookup_asset_def split: option.splits)
  with Inr show ?thesis
    by (auto simp: local_Remove_def Let_def prefixPath_def split: if_splits)
qed

text \<open>
  What holds of \<open>Remove\<close>. In-memory store: \<open>Remove\<close> of a stored hash returns no
  error and \<open>Fetch\<close> of it then fails with \<open>ErrNotExist\<close>; \<open>Remove\<close> of a hash that
  is not stored fails with \<open>ErrNotExist\<close>. Local store, when no call into the
  operating system meets a fault: \<open>Remove\<close> of a stored hash returns no error and
  \<open>Fetch\<close> of it then fails with \<open>ErrNotExist\<close>; \<open>Remove\<close> of a hash that is not
  stored fails and leaves the file system as it is, and the error is
  \<open>errInvalidHash\<close> when the hash is shorter than the prefix length.
\<close>

theorem Remove_then_Fetch:
  "(files f h = Some c \<longrightarrow>
      fst (memory_Remove f h) = None
      \<and> memory_Fetch (snd (memory_Remove f h)) h = Inl ErrNotExist)
   \<and> (files f h = None \<longrightarrow> memory_Remove f h = (Some ErrNotExist, f))
   \<and> (prefixPath lf h = Inr p \<and> lookup_asset fs p h = Some x \<longrightarrow>
      fst (local_Remove lf no_remove_faults fs h) = None
      \<and> local_Fetch lf None (snd (local_Remove lf no_remove_faults fs h)) h = Inl ErrNotExist)
   \<and> ((\<forall>p. prefixPath lf h = Inr p \<longrightarrow> lookup_asset fs p h = None) \<longrightarrow>
      fst (local_Remove lf no_remove_faults fs h) \<noteq> None
      \<and> snd (local_Remove lf no_remove_faults fs h) = fs
      \<and> (int (length h) < PrefixSize lf \<longrightarrow>
           fst (local_Remove lf no_remove_faults fs h) = Some errInvalidHash))"
proof -
  have m1: "files f h = Some c \<longrightarrow>
      fst (memory_Remove f h) = None
      \<and> memory_Fetch (snd (memory_Remove f h)) h = Inl ErrNotExist"
    by (simp add: memory_Remove_def memory_Fetch_def)
  have m2: "files f h = None \<longrightarrow> memory_Remove f h = (Some ErrNotExist, f)"
    by (simp add: memory_Remove_def)
  have l1: "prefixPath lf h = Inr p \<and> lookup_asset fs p h = Some x \<longrightarrow>
      fst (local_Remove lf no_remove_faults fs h) = None
      \<and> local_Fetch lf None (snd (local_Remove lf no_remove_faults fs h)) h = Inl ErrNotExist"
    using local_Remove_stored [of lf h p fs x] local_Fetch_absent [of lf h p] by blast
  from m1 m2 l1 local_Remove_absent [of lf h fs no_remove_faults] show ?thesis
    by blast
qed

theorem Remove_then_Fetch_witness:
  "map_of [(''ab01'', [1::byte])] ''ab01'' = Some [1]
   \<and> memory_Remove \<lparr>files = map_of [(''ab01'', [1])]\<rparr> ''ab01''
       = (None, \<lparr>files = (map_of [(''ab01'', [1])])(''ab01'' := None)\<rparr>)
   \<and> memory_Fetch \<lparr>files = (map_of [(''ab01'', [1])])(''ab01'' := None)\<rparr> ''ab01'' = Inl ErrNotExist
   \<and> memory_Remove \<lparr>files = map_of [(''ab01'', [1])]\<rparr> ''cd03'' 
       = (Some ErrNotExist, \<lparr>files = map_of [(''ab01'', [1])]\<rparr>)
   \<and> prefixPath \<lparr>tmpPath = ''tmp'', assetsPath = ''assets'', TargetFileMode = 420, PrefixSize = 2\<rparr>
        ''ab01'' = Inr ''ab''
   \<and> lookup_asset \<lparr>tmpdir = [], assets = [(''ab'', [(''ab01'', File [1] 420)])]\<rparr> ''ab'' ''ab01''
       = Some (File [1] 420)
   \<and> local_Remove
        \<lparr>tmpPath = ''tmp'', assetsPath = ''assets'', TargetFileMode = 420, PrefixSize = 2\<rparr>
        no_remove_faults \<lparr>tmpdir = [], assets = [(''ab'', [(''ab01'', File [1] 420)])]\<rparr> ''ab01''
       = (None, \<lparr>tmpdir = [], assets = []\<rparr>)
   \<and> local_Fetch
        \<lparr>tmpPath = ''tmp'', assetsPath = ''assets'', TargetFileMode = 420, PrefixSize = 2\<rparr>
        None \<lparr>tmpdir = [], assets = []\<rparr> ''ab01'' = Inl ErrNotExist
   \<and> fst (local_Remove
        \<lparr>tmpPath = ''tmp'', assetsPath = ''assets'', TargetFileMode = 420, PrefixSize = 2\<rparr>
        no_remove_faults \<lparr>tmpdir = [], assets = [(''ab'', [(''ab01'', File [1] 420)])]\<rparr> ''a'')
       = Some errInvalidHash"
proof -
  let ?f = "\<lparr>files = map_of [(''ab01'', [1::byte])]\<rparr>"
  let ?lf = "\<lparr>tmpPath = ''tmp'', assetsPath = ''assets'', TargetFileMode = 420, PrefixSize = 2\<rparr>"
  let ?fs = "\<lparr>tmpdir = [], assets = [(''ab'', [(''ab01'', File [1] 420)])]\<rparr>"
  have a: "files ?f ''ab01'' = Some [1]" by simp
  have b: "files ?f ''cd03'' = None" by simp
  have c: "prefixPath ?lf ''ab01'' = Inr ''ab''" by (simp add: prefixPath_def)
  have d: "lookup_asset ?fs ''ab'' ''ab01'' = Some (File [1] 420)" by (simp add: lookup_asset_def)
  have e: "\<forall>p. prefixPath ?lf ''a'' = Inr p \<longrightarrow> lookup_asset ?fs p ''a'' = None"
    by (simp add: prefixPath_def)
  have r1: "memory_Remove ?f ''ab01'' = (None, \<lparr>files = (map_of [(''ab01'', [1])])(''ab01'' := None)\<rparr>)"
    by (simp add: memory_Remove_def)
  have r2: "local_Remove ?lf no_remove_faults ?fs ''ab01'' = (None, \<lparr>tmpdir = [], assets = []\<rparr>)"
    by (simp add: local_Remove_def no_remove_faults_def prefixPath_def Let_def os_Remove_file_def
        os_Open_dir_def Readdirnames1_def os_Remove_dir_def shard_path_def)
  from Remove_then_Fetch [of ?f "''ab01''" "[1]" ?lf "''ab''" ?fs "File [1] 420"] a c d r1 r2
  have s1: "memory_Fetch \<lparr>files = (map_of [(''ab01'', [1::byte])])(''ab01'' := None)\<rparr> ''ab01'' = Inl ErrNotExist"
    and s2: "local_Fetch ?lf None \<lparr>tmpdir = [], assets = []\<rparr> ''ab01'' = Inl ErrNotExist"
    by simp_all
  from Remove_then_Fetch [of ?f "''cd03''" "[1]" ?lf "''ab''" ?fs "File [1] 420"] b
  have s3: "memory_Remove ?f ''cd03'' = (Some ErrNotExist, ?f)" by simp
  from Remove_then_Fetch [of ?f "''a''" "[1]" ?lf "''ab''" ?fs "File [1] 420"] e
  have s4: "fst (local_Remove ?lf no_remove_faults ?fs ''a'') = Some errInvalidHash"
    by simp
  from a c d r1 r2 s1 s2 s3 s4 show ?thesis by simp
qed

text \<open>
  The guard of \<open>prefixPath\<close> comes first: a string shorter than the prefix length is
  refused with \<open>errInvalidHash\<close>, stored or not.
\<close>

lemma local_Remove_short_hash:
  "local_Remove
     \<lparr>tmpPath = ''tmp'', assetsPath = ''assets'', TargetFileMode = 420, PrefixSize = 2\<rparr>
     no_remove_faults \<lparr>tmpdir = [], assets = []\<rparr> ''a''
   = (Some errInvalidHash, \<lparr>tmpdir = [], assets = []\<rparr>)"
  by (simp add: local_Remove_def prefixPath_def)

text \<open>
  Claim C6, at the input where the local store leaves it. The store is empty and the
  hash is the 64-character hash that the tests of the repository remove after the
  stored one. \<open>Remove\<close> of the local store fails with the error of \<^verbatim>\<open>os.Remove\<close>
  wrapped by \<^verbatim>\<open>fmt.Errorf\<close>: \<^verbatim>\<open>errors.Is\<close> matches it with \<^verbatim>\<open>os.ErrNotExist\<close> and
  not with \<open>ErrNotExist\<close>, the sentinel of the repository that the test asks for.
  \<open>Fetch\<close> of the local store and \<open>Remove\<close> of the in-memory store, on the same
  hash, fail with \<open>ErrNotExist\<close>.
\<close>

theorem local_Remove_absent_hash:
  "lookup_asset \<lparr>tmpdir = [], assets = []\<rparr> ''a0''
     ''a09595c5d94fb65b824f56e9999527dba9542481580d69feb89056aabaa0aa87'' = None
   \<and> local_Remove
        \<lparr>tmpPath = ''tmp'', assetsPath = ''assets'', TargetFileMode = 420, PrefixSize = 2\<rparr>
        no_remove_faults \<lparr>tmpdir = [], assets = []\<rparr>
        ''a09595c5d94fb65b824f56e9999527dba9542481580d69feb89056aabaa0aa87''
      = (Some (Wrapf ''removing file''
                (PathError ''remove''
                   ''assets/a0/a09595c5d94fb65b824f56e9999527dba9542481580d69feb89056aabaa0aa87''
                   (Errno ENOENT))),
         \<lparr>tmpdir = [], assets = []\<rparr>)
   \<and> \<not> errors_Is (Wrapf ''removing file''
                (PathError ''remove''
                   ''assets/a0/a09595c5d94fb65b824f56e9999527dba9542481580d69feb89056aabaa0aa87''
                   (Errno ENOENT))) ErrNotExist
   \<and> errors_Is (Wrapf ''removing file''
                (PathError ''remove''
                   ''assets/a0/a09595c5d94fb65b824f56e9999527dba9542481580d69feb89056aabaa0aa87''
                   (Errno ENOENT))) os_ErrNotExist
   \<and> local_Fetch
        \<lparr>tmpPath = ''tmp'', assetsPath = ''assets'', TargetFileMode = 420, PrefixSize = 2\<rparr>
        None \<lparr>tmpdir = [], assets = []\<rparr>
        ''a09595c5d94fb65b824f56e9999527dba9542481580d69feb89056aabaa0aa87'' = Inl ErrNotExist
   \<and> memory_Remove memory_NewFilestore
        ''a09595c5d94fb65b824f56e9999527dba9542481580d69feb89056aabaa0aa87''
      = (Some ErrNotExist, memory_NewFilestore)"
  by (simp add: lookup_asset_def local_Remove_def prefixPath_def no_remove_faults_def Let_def
      os_Remove_file_def shard_path_def local_Fetch_def os_Open_def memory_Remove_def
      memory_NewFilestore_def)

section \<open>Size\<close>





section \<open>Store of the local backend\<close>

subsection \<open>The steps of Store\<close>

lemma lookup_asset_assets: "assets a = assets b \<Longrightarrow> lookup_asset a p h = lookup_asset b p h"
  by (simp add: lookup_asset_def)

lemma lookup_asset_update:
  "lookup_asset (fs\<lparr>assets := AList.update p d (assets fs)\<rparr>) p' h'
     = (if p' = p then map_of d h' else lookup_asset fs p' h')"
  by (simp add: lookup_asset_def update_conv')

lemma os_CreateTempD:
  assumes "os_CreateTemp dp rnds fault fs = Inr (name, fs1)"
  shows "map_of (tmpdir fs) name = None
    \<and> fs1 = fs\<lparr>tmpdir := AList.update name (File [] 384) (tmpdir fs)\<rparr>"
  using assms
  by (auto simp: os_CreateTemp_def find_Some_iff split: option.splits)

lemma io_Copy_teeD:
  assumes "io_Copy_tee r path wflt fs name = (e, fs2)"
  shows "assets fs2 = assets fs
    \<and> (e = None \<longrightarrow> rerr r = None
          \<and> fs2 = fs\<lparr>tmpdir := AList.update name (File (rdata r) 384) (tmpdir fs)\<rparr>)"
  using assms
  by (auto simp: io_Copy_tee_def Let_def split: option.splits prod.splits if_splits)

lemma Store_deferredD:
  assumes "Store_deferred f flt name c cc rn ret fs = (ret', fs')"
  shows "assets fs' = assets fs \<and> fst ret' = fst ret
    \<and> (snd ret \<noteq> None \<longrightarrow> snd ret' \<noteq> None)
    \<and> (c \<and> rn \<longrightarrow> ret' = ret \<and> fs' = fs)
    \<and> (snd ret' = None \<longrightarrow> ret' = ret
          \<and> (if rn then fs' = fs else fs' = fs\<lparr>tmpdir := AList.delete name (tmpdir fs)\<rparr>))"
  using assms
  by (auto simp: Store_deferred_def os_Remove_tmp_def
      split: option.splits if_splits sum.splits)

lemma lookup_asset_dir:
  "map_of (assets fs) p = Some d \<Longrightarrow> lookup_asset fs p h = map_of d h"
  "map_of (assets fs) p = None \<Longrightarrow> lookup_asset fs p h = None"
  by (simp_all add: lookup_asset_def)

lemma os_MkdirAllD:
  assumes "os_MkdirAll path fault fs p = Inr fs3"
  shows "tmpdir fs3 = tmpdir fs \<and> (\<forall>p' h'. lookup_asset fs3 p' h' = lookup_asset fs p' h')
    \<and> map_of (assets fs3) p \<noteq> None"
proof (cases fault)
  case (Some en)
  with assms show ?thesis by (simp add: os_MkdirAll_def)
next
  case None
  show ?thesis
  proof (cases "map_of (assets fs) p")
    case (Some d)
    with None assms show ?thesis by (auto simp: os_MkdirAll_def)
  next
    case nodir: None
    with None assms have "fs3 = fs\<lparr>assets := AList.update p [] (assets fs)\<rparr>"
      by (simp add: os_MkdirAll_def)
    with nodir show ?thesis
      by (simp add: lookup_asset_update lookup_asset_dir update_conv')
  qed
qed

lemma os_RenameD:
  assumes "os_Rename oldpath fault fs name p h = Inr fs4"
  shows "\<exists>x. map_of (tmpdir fs) name = Some x \<and> tmpdir fs4 = AList.delete name (tmpdir fs)
    \<and> (\<forall>p' h'. lookup_asset fs4 p' h'
          = (if p' = p \<and> h' = h then Some x else lookup_asset fs p' h'))"
proof -
  from assms obtain x d where x: "fault = None" "map_of (tmpdir fs) name = Some x"
    "map_of (assets fs) p = Some d"
    "fs4 = fs\<lparr>tmpdir := AList.delete name (tmpdir fs),
              assets := AList.update p (AList.update h x d) (assets fs)\<rparr>"
    by (auto simp: os_Rename_def split: option.splits)
  have "lookup_asset fs4 p' h' = (if p' = p \<and> h' = h then Some x else lookup_asset fs p' h')"
    for p' h'
    using x(3,4) by (simp add: lookup_asset_def update_conv')
  with x show ?thesis by simp
qed

lemma os_ChmodD:
  assumes "os_Chmod path fault fs p h m = Inr fs5"
  shows "tmpdir fs5 = tmpdir fs
    \<and> (\<exists>x. lookup_asset fs p h = Some x
          \<and> (\<forall>p' h'. lookup_asset fs5 p' h'
                = (if p' = p \<and> h' = h then Some (File (content x) m) else lookup_asset fs p' h')))"
proof -
  from assms obtain x d where x: "fault = None" "map_of (assets fs) p = Some d" "map_of d h = Some x"
    "fs5 = fs\<lparr>assets := AList.update p (AList.update h (File (content x) m) d) (assets fs)\<rparr>"
    by (auto simp: os_Chmod_def split: option.splits)
  have "lookup_asset fs5 p' h'
      = (if p' = p \<and> h' = h then Some (File (content x) m) else lookup_asset fs p' h')"
    for p' h'
    using x(2,4) by (simp add: lookup_asset_def update_conv')
  moreover from x have "lookup_asset fs p h = Some x" by (simp add: lookup_asset_def)
  ultimately show ?thesis using x(4) by simp
qed


lemma staged_then_removed:
  assumes "map_of t name = None"
  shows "map_of (AList.delete name (AList.update name v t)) = map_of t"
  using assms by (simp add: delete_conv' update_conv' fun_upd_idem)

lemma Store_deferred_renamed: "Store_deferred f flt name True cc True ret fs = (ret, fs)"
  by (simp add: Store_deferred_def)

lemma store_post_unpromoted:
  assumes "assets fs' = assets fs" "snd ret \<noteq> None"
  shows "store_post sha f flt fs r ret fs'"
  using assms by (auto simp: store_post_def lookup_asset_assets [of fs' fs])

lemma local_Store_post:
  assumes run: "local_Store sha f flt fs r = (ret, fs')"
  shows "store_post sha f flt fs r ret fs'"
proof (cases "os_CreateTemp (tmpPath f) (rnd_names flt) (createTemp_fault flt) fs")
  case (Inl e)
  with run have "fs' = fs" "snd ret \<noteq> None"
    by (auto simp: local_Store_def)
  then show ?thesis by (simp add: store_post_unpromoted)
next
  case (Inr nf)
  obtain name fs1 where nf: "nf = (name, fs1)" by (cases nf)
  from os_CreateTempD [OF Inr [unfolded nf]]
  have fresh: "map_of (tmpdir fs) name = None"
    and fs1: "fs1 = fs\<lparr>tmpdir := AList.update name (File [] 384) (tmpdir fs)\<rparr>"
    by simp_all
  obtain ce fs2 where copy: "io_Copy_tee r (temp_path f name) (write_fault flt) fs1 name = (ce, fs2)"
    by (cases "io_Copy_tee r (temp_path f name) (write_fault flt) fs1 name")
  from io_Copy_teeD [OF copy] fs1 have a2: "assets fs2 = assets fs" by simp
  show ?thesis
  proof (cases ce)
    case (Some err)
    with run Inr nf copy
    have "Store_deferred f flt name False False False ([], Some (Wrapf ''copying reader'' err)) fs2
        = (ret, fs')"
      by (simp add: local_Store_def)
    from Store_deferredD [OF this] a2 show ?thesis
      by (simp add: store_post_unpromoted)
  next
    case None
    with io_Copy_teeD [OF copy] fs1 have eof: "rerr r = None"
      and fs2: "fs2 = fs1\<lparr>tmpdir := AList.update name (File (rdata r) 384) (tmpdir fs1)\<rparr>"
      by simp_all
    define hashHex where "hashHex = hex_EncodeToString (sha (rdata r))"
    have hh: "hashHex = content_hash sha (rdata r)"
      by (simp add: hashHex_def content_hash_def)
    show ?thesis
    proof (cases "prefixPath f hashHex")
      case (Inl err)
      obtain ret0 fs3 where d: "Store_deferred f flt name False False False ([], Some err) fs2
          = (ret0, fs3)"
        by (cases "Store_deferred f flt name False False False ([], Some err) fs2")
      with run Inr nf copy None Inl
      have "ret = (if is_panic err then ([], Some err) else ret0)" "fs' = fs3"
        by (simp_all add: local_Store_def hashHex_def)
      with Store_deferredD [OF d] a2 show ?thesis
        by (auto simp: store_post_unpromoted)
    next
      case (Inr p)
      note pre = Inr
      show ?thesis
      proof (cases "close_fault flt")
        case (Some en)
        with run \<open>os_CreateTemp _ _ _ _ = Inr nf\<close> nf copy None pre
        have "Store_deferred f flt name False True False
            ([], Some (Wrapf ''closing temp file''
                         (PathError ''close'' (temp_path f name) (Errno en)))) fs2 = (ret, fs')"
          by (simp add: local_Store_def hashHex_def)
        from Store_deferredD [OF this] a2 show ?thesis
          by (simp add: store_post_unpromoted)
      next
        case closed: None
        show ?thesis
        proof (cases "os_Stat (target_path f p hashHex) (stat_fault flt) fs2 p hashHex")
          case (Inr x)
          with run \<open>os_CreateTemp _ _ _ _ = Inr nf\<close> nf copy None pre closed
          have d: "Store_deferred f flt name True True False (hashHex, None) fs2 = (ret, fs')"
            by (simp add: local_Store_def hashHex_def Let_def)
          from Inr have there: "lookup_asset fs2 p hashHex = Some x"
            by (auto simp: os_Stat_def split: option.splits)
          from Store_deferredD [OF d] a2 have a': "assets fs' = assets fs"
            and fst_ret: "fst ret = hashHex"
            and ok: "snd ret = None \<longrightarrow> fs' = fs2\<lparr>tmpdir := AList.delete name (tmpdir fs2)\<rparr>"
            by auto
          from ok fs2 fs1 fresh
          have tmp: "snd ret = None \<longrightarrow> map_of (tmpdir fs') = map_of (tmpdir fs)"
            by (auto simp: staged_then_removed)
          from there a' have "lookup_asset fs' p hashHex = Some x"
            using lookup_asset_assets [of fs' fs2 p hashHex] a2 by simp
          with a' fst_ret tmp eof pre hh show ?thesis
            by (auto simp: store_post_def lookup_asset_assets [of fs' fs])
        next
          case (Inl serr)
          then have "stat_fault flt = None \<longrightarrow> lookup_asset fs2 p hashHex = None"
            by (auto simp: os_Stat_def split: option.splits)
          with a2 pre hh
          have c4: "\<not> (stat_fault flt = None
              \<and> (\<exists>p x. prefixPath f (content_hash sha (rdata r)) = Inr p
                       \<and> lookup_asset fs p (content_hash sha (rdata r)) = Some x))"
            using lookup_asset_assets [of fs2 fs p hashHex] by auto
          show ?thesis
          proof (cases "os_MkdirAll (shard_path f p) (mkdirAll_fault flt) fs2 p")
            case (Inl err)
            with run \<open>os_CreateTemp _ _ _ _ = Inr nf\<close> nf copy None pre closed
              \<open>os_Stat _ _ _ _ _ = Inl serr\<close>
            have "Store_deferred f flt name True True False
                ([], Some (Wrapf ''creating asset subdirectory'' err)) fs2 = (ret, fs')"
              by (simp add: local_Store_def hashHex_def Let_def)
            from Store_deferredD [OF this] a2 show ?thesis
              by (simp add: store_post_unpromoted)
          next
            case (Inr fs3)
            note mk = os_MkdirAllD [OF Inr]
            from mk a2 have l3: "lookup_asset fs3 p' h' = lookup_asset fs p' h'" for p' h'
              using lookup_asset_assets [of fs2 fs p' h'] by simp
            show ?thesis
            proof (cases "os_Rename (temp_path f name) (rename_fault flt) fs3 name p hashHex")
              case (Inl err)
              with run \<open>os_CreateTemp _ _ _ _ = Inr nf\<close> nf copy None pre closed
                \<open>os_Stat _ _ _ _ _ = Inl serr\<close> \<open>os_MkdirAll _ _ _ _ = Inr fs3\<close>
              have "Store_deferred f flt name True True False
                  ([], Some (Wrapf ''renaming temp file'' err)) fs3 = (ret, fs')"
                by (simp add: local_Store_def hashHex_def Let_def)
              from Store_deferredD [OF this] have "assets fs' = assets fs3" "snd ret \<noteq> None"
                by auto
              with l3 c4 show ?thesis
                by (auto simp: store_post_def lookup_asset_assets [of fs' fs3])
            next
              case (Inr fs4)
              from os_RenameD [OF Inr] mk fs2
              have t4: "tmpdir fs4 = AList.delete name (tmpdir fs2)"
                and l4: "\<And>p' h'. lookup_asset fs4 p' h'
                  = (if p' = p \<and> h' = hashHex then Some (File (rdata r) 384)
                     else lookup_asset fs p' h')"
                by (auto simp: l3 update_conv')
              show ?thesis
              proof (cases "os_Chmod (target_path f p hashHex) (chmod_fault flt) fs4 p hashHex
                              (TargetFileMode f)")
                case (Inl err)
                with run \<open>os_CreateTemp _ _ _ _ = Inr nf\<close> nf copy None pre closed
                  \<open>os_Stat _ _ _ _ _ = Inl serr\<close> \<open>os_MkdirAll _ _ _ _ = Inr fs3\<close>
                  \<open>os_Rename _ _ _ _ _ _ = Inr fs4\<close>
                have "Store_deferred f flt name True True True
                    ([], Some (Wrapf ''setting file mode'' err)) fs4 = (ret, fs')"
                  by (simp add: local_Store_def hashHex_def Let_def)
                then have "ret = ([], Some (Wrapf ''setting file mode'' err))" "fs' = fs4"
                  by (simp_all add: Store_deferred_renamed)
                with l4 eof pre hh c4 show ?thesis
                  by (auto simp: store_post_def)
              next
                case (Inr fs5)
                with run \<open>os_CreateTemp _ _ _ _ = Inr nf\<close> nf copy None pre closed
                  \<open>os_Stat _ _ _ _ _ = Inl serr\<close> \<open>os_MkdirAll _ _ _ _ = Inr fs3\<close>
                  \<open>os_Rename _ _ _ _ _ _ = Inr fs4\<close>
                have "Store_deferred f flt name True True True (hashHex, None) fs5 = (ret, fs')"
                  by (simp add: local_Store_def hashHex_def Let_def)
                then have res: "ret = (hashHex, None)" "fs' = fs5"
                  by (simp_all add: Store_deferred_renamed)
                from os_ChmodD [OF Inr] l4
                have t5: "tmpdir fs5 = tmpdir fs4"
                  and l5: "\<And>p' h'. lookup_asset fs5 p' h'
                    = (if p' = p \<and> h' = hashHex then Some (File (rdata r) (TargetFileMode f))
                       else lookup_asset fs p' h')"
                  by auto
                from t5 t4 fs2 fs1 fresh have "map_of (tmpdir fs5) = map_of (tmpdir fs)"
                  by (simp add: staged_then_removed)
                with res l5 eof pre hh c4 show ?thesis
                  by (auto simp: store_post_def)
              qed
            qed
          qed
        qed
      qed
    qed
  qed
qed


lemma fresh_name_find:
  assumes "fresh_name fs rnds"
  obtains name where
    "find (\<lambda>n. map_of (tmpdir fs) n = None) (map (\<lambda>r. ''image-upload-'' @ r) rnds) = Some name"
    "map_of (tmpdir fs) name = None"
proof -
  from assms have "find (\<lambda>n. map_of (tmpdir fs) n = None) (map (\<lambda>r. ''image-upload-'' @ r) rnds)
      \<noteq> None"
    by (auto simp: fresh_name_def find_None_iff)
  then obtain name where
    n: "find (\<lambda>n. map_of (tmpdir fs) n = None) (map (\<lambda>r. ''image-upload-'' @ r) rnds) = Some name"
    by auto
  then have "map_of (tmpdir fs) name = None"
    by (auto simp: find_Some_iff)
  with n that show ?thesis by blast
qed

lemma os_CreateTemp_fresh:
  assumes "fresh_name fs rnds"
  obtains name where "map_of (tmpdir fs) name = None"
    "os_CreateTemp dp rnds None fs
       = Inr (name, fs\<lparr>tmpdir := AList.update name (File [] 384) (tmpdir fs)\<rparr>)"
proof -
  from assms obtain name where
    n: "find (\<lambda>n. map_of (tmpdir fs) n = None) (map (\<lambda>r. ''image-upload-'' @ r) rnds) = Some name"
    and fresh: "map_of (tmpdir fs) name = None"
    by (rule fresh_name_find)
  have "os_CreateTemp dp rnds None fs
       = Inr (name, fs\<lparr>tmpdir := AList.update name (File [] 384) (tmpdir fs)\<rparr>)"
    by (simp only: os_CreateTemp_def n option.simps)
  with fresh that show ?thesis by blast
qed

lemma local_Store_no_faults:
  assumes "fresh_name fs rnds" "prefixPath f (content_hash sha B) = Inr p"
  shows "snd (fst (local_Store sha f (no_faults rnds) fs (NewReader B))) = None"
proof -
  from assms(1) obtain name where
    ct: "os_CreateTemp (tmpPath f) rnds None fs
       = Inr (name, fs\<lparr>tmpdir := AList.update name (File [] 384) (tmpdir fs)\<rparr>)"
    by (rule os_CreateTemp_fresh)
  let ?h = "hex_EncodeToString (sha B)"
  from assms(2) have pre: "prefixPath f ?h = Inr p" by (simp add: content_hash_def)
  show ?thesis
  proof (cases "lookup_asset fs p ?h")
    case (Some x)
    with ct pre show ?thesis
      by (simp add: local_Store_def no_faults_def io_Copy_tee_def NewReader_def
          Let_def os_Stat_def lookup_asset_def Store_deferred_def os_Remove_tmp_def update_conv')
  next
    case None
    show ?thesis
    proof (cases "map_of (assets fs) p")
      case nodir: None
      with None ct pre show ?thesis
        by (simp add: local_Store_def no_faults_def io_Copy_tee_def NewReader_def
            Let_def os_Stat_def lookup_asset_def Store_deferred_def os_MkdirAll_def os_Rename_def
            os_Chmod_def update_conv')
    next
      case (Some d)
      with None ct pre show ?thesis
        by (simp add: local_Store_def no_faults_def io_Copy_tee_def NewReader_def
            Let_def os_Stat_def lookup_asset_def Store_deferred_def os_MkdirAll_def os_Rename_def
            os_Chmod_def update_conv')
    qed
  qed
qed

lemma prefixPath_hash:
  assumes "0 \<le> PrefixSize f" "PrefixSize f \<le> 64" "length (sha B) = 32"
  shows "prefixPath f (content_hash sha B) = Inr (take (nat (PrefixSize f)) (content_hash sha B))"
  using assms length_content_hash [of sha B] by (simp add: prefixPath_def)

lemma hex_digit: "n < 16 \<Longrightarrow> hextable ! n \<in> set hextable"
  by (rule nth_mem) (simp add: hextable_def)

lemma hex_EncodeToString_digits: "set (hex_EncodeToString bs) \<subseteq> set hextable"
proof -
  have hi: "unat (drop_bit 4 v) < 16" for v :: byte
  proof -
    have "unat v < 2 ^ 8" using unsigned_less [of v] by simp
    then have "unat v div 16 < 16" by simp
    moreover have "drop_bit 4 v = v div 16"
      by (simp add: drop_bit_eq_div)
    then have "unat (drop_bit 4 v) = unat v div unat (16 :: byte)"
      by (simp only: unat_div_distrib)
    ultimately show ?thesis by simp
  qed
  have lo: "unat (v AND 0x0f) < 16" for v :: byte
  proof -
    have "v AND 15 \<le> 15" by (rule word_and_le1)
    then have "unat (v AND 15) \<le> 15" by (simp add: word_le_nat_alt)
    then show ?thesis by simp
  qed
  show ?thesis
    unfolding hex_EncodeToString_def using hex_digit [OF hi] hex_digit [OF lo] by auto
qed

lemma pad32_123: "content_hash pad32 [1, 2, 3] = ''0102030000000000000000000000000000000000000000000000000000000000''"
  by code_simp

subsection \<open>Store, then Fetch\<close>

text \<open>
  Claim C1. For every byte sequence \<open>B\<close>, \<open>Store\<close> of the in-memory store on a
  reader over \<open>B\<close> returns no error and the lowercase hex encoding of the digest of
  \<open>B\<close>, of 64 characters for a digest of 32 bytes, and \<open>Fetch\<close> of that hash then
  returns a reader over \<open>B\<close>. So does the local store when no call into the
  operating system meets a fault, a staging name is free, the prefix length lies
  between 1 and 64, and no other content lies under the hash of \<open>B\<close> already (two
  contents with one digest would).
\<close>

theorem Store_then_Fetch:
  "memory_Store sha256_Sum mf (NewReader B)
     = ((content_hash sha256_Sum B, None),
        mf\<lparr>files := (files mf)(content_hash sha256_Sum B \<mapsto> B)\<rparr>, Reader [] None)
   \<and> memory_Fetch (mf\<lparr>files := (files mf)(content_hash sha256_Sum B \<mapsto> B)\<rparr>)
        (content_hash sha256_Sum B) = Inr (NewReader B)
   \<and> set (content_hash sha256_Sum B) \<subseteq> set ''0123456789abcdef''
   \<and> (length (sha256_Sum B) = 32 \<longrightarrow> length (content_hash sha256_Sum B) = 64)
   \<and> (fresh_name fs rnds \<and> 0 < PrefixSize f \<and> PrefixSize f \<le> 64
       \<and> length (sha256_Sum B) = 32
       \<and> (\<forall>p x. lookup_asset fs p (content_hash sha256_Sum B) = Some x \<longrightarrow> content x = B) \<longrightarrow>
        (\<exists>fs'. local_Store sha256_Sum f (no_faults rnds) fs (NewReader B)
                 = ((content_hash sha256_Sum B, None), fs')
              \<and> local_Fetch f None fs' (content_hash sha256_Sum B) = Inr (NewReader B)))"
proof -
  let ?h = "content_hash sha256_Sum B"
  have m: "memory_Store sha256_Sum mf (NewReader B)
     = ((?h, None), mf\<lparr>files := (files mf)(?h \<mapsto> B)\<rparr>, Reader [] None)
   \<and> memory_Fetch (mf\<lparr>files := (files mf)(?h \<mapsto> B)\<rparr>) ?h = Inr (NewReader B)"
    by (simp add: memory_Store_def memory_Fetch_def io_ReadAll_def NewReader_def Let_def
        content_hash_def)
  have d: "set ?h \<subseteq> set ''0123456789abcdef''"
    using hex_EncodeToString_digits [of "sha256_Sum B"]
    by (simp add: content_hash_def hextable_def)
  have l: "\<exists>fs'. local_Store sha256_Sum f (no_faults rnds) fs (NewReader B) = ((?h, None), fs')
              \<and> local_Fetch f None fs' ?h = Inr (NewReader B)"
    if fresh: "fresh_name fs rnds" and ps: "0 < PrefixSize f" "PrefixSize f \<le> 64"
      and len: "length (sha256_Sum B) = 32"
      and same: "\<forall>p x. lookup_asset fs p ?h = Some x \<longrightarrow> content x = B"
  proof -
    from ps len have pre: "prefixPath f ?h = Inr (take (nat (PrefixSize f)) ?h)"
      by (intro prefixPath_hash) simp_all
    obtain ret fs' where run: "local_Store sha256_Sum f (no_faults rnds) fs (NewReader B) = (ret, fs')"
      by (cases "local_Store sha256_Sum f (no_faults rnds) fs (NewReader B)")
    from local_Store_no_faults [OF fresh pre] run have ok: "snd ret = None" by simp
    from local_Store_post [OF run] ok
    have post: "fst ret = ?h"
      "\<exists>p x. prefixPath f (fst ret) = Inr p \<and> lookup_asset fs' p (fst ret) = Some x"
      "\<forall>p h. lookup_asset fs' p h = lookup_asset fs p h
         \<or> (h = ?h \<and> prefixPath f h = Inr p \<and> (\<exists>m. lookup_asset fs' p h = Some (File B m)))"
      by (auto simp: store_post_def NewReader_def)
    from post(1,2) pre obtain x where
      x: "lookup_asset fs' (take (nat (PrefixSize f)) ?h) ?h = Some x"
      by auto
    with post(3) same have "content x = B"
      by (metis osfile.sel(1) option.inject)
    with x pre have "local_Fetch f None fs' ?h = Inr (NewReader B)"
      by (simp add: local_Fetch_def os_Open_def)
    moreover from post(1) ok have "ret = (?h, None)" by (cases ret) simp
    ultimately show ?thesis using run by simp
  qed
  from m d l show ?thesis
    using length_content_hash [of sha256_Sum B] by blast
qed

theorem Store_then_Fetch_witness:
  "fresh_name \<lparr>tmpdir = [], assets = []\<rparr> [''1''] \<and> length (pad32 [1, 2, 3]) = 32
   \<and> memory_Store pad32 memory_NewFilestore (NewReader [1, 2, 3])
       = ((''0102030000000000000000000000000000000000000000000000000000000000'', None), memory_NewFilestore\<lparr>files := (files memory_NewFilestore)(''0102030000000000000000000000000000000000000000000000000000000000'' \<mapsto> [1, 2, 3])\<rparr>,
          Reader [] None)
   \<and> memory_Fetch (memory_NewFilestore\<lparr>files := (files memory_NewFilestore)(''0102030000000000000000000000000000000000000000000000000000000000'' \<mapsto> [1, 2, 3])\<rparr>)
        ''0102030000000000000000000000000000000000000000000000000000000000'' = Inr (NewReader [1, 2, 3])
   \<and> length ''0102030000000000000000000000000000000000000000000000000000000000'' = 64
   \<and> local_Store pad32 \<lparr>tmpPath = ''tmp'', assetsPath = ''assets'', TargetFileMode = 420, PrefixSize = 2\<rparr> (no_faults [''1'']) \<lparr>tmpdir = [], assets = []\<rparr> (NewReader [1, 2, 3])
       = ((''0102030000000000000000000000000000000000000000000000000000000000'', None), \<lparr>tmpdir = [], assets = [(''01'', [(''0102030000000000000000000000000000000000000000000000000000000000'', File [1, 2, 3] 420)])]\<rparr>)
   \<and> local_Fetch \<lparr>tmpPath = ''tmp'', assetsPath = ''assets'', TargetFileMode = 420, PrefixSize = 2\<rparr> None \<lparr>tmpdir = [], assets = [(''01'', [(''0102030000000000000000000000000000000000000000000000000000000000'', File [1, 2, 3] 420)])]\<rparr> ''0102030000000000000000000000000000000000000000000000000000000000'' = Inr (NewReader [1, 2, 3])"
proof -
  have fresh: "fresh_name \<lparr>tmpdir = [], assets = []\<rparr> [''1'']"
    by (simp add: fresh_name_def)
  have len: "length (pad32 [1, 2, 3]) = 32"
    by (rule length_pad32)
  have ps: "0 < PrefixSize \<lparr>tmpPath = ''tmp'', assetsPath = ''assets'', TargetFileMode = 420, PrefixSize = 2\<rparr>" "PrefixSize \<lparr>tmpPath = ''tmp'', assetsPath = ''assets'', TargetFileMode = 420, PrefixSize = 2\<rparr> \<le> 64"
    by simp_all
  have same: "\<forall>p x. lookup_asset \<lparr>tmpdir = [], assets = []\<rparr> p (content_hash pad32 [1, 2, 3]) = Some x
      \<longrightarrow> content x = [1, 2, 3]"
    by (simp add: lookup_asset_def)
  have run: "local_Store pad32 \<lparr>tmpPath = ''tmp'', assetsPath = ''assets'', TargetFileMode = 420, PrefixSize = 2\<rparr> (no_faults [''1'']) \<lparr>tmpdir = [], assets = []\<rparr> (NewReader [1, 2, 3]) = ((''0102030000000000000000000000000000000000000000000000000000000000'', None), \<lparr>tmpdir = [], assets = [(''01'', [(''0102030000000000000000000000000000000000000000000000000000000000'', File [1, 2, 3] 420)])]\<rparr>)"
    by code_simp
  from Store_then_Fetch [of pad32 memory_NewFilestore "[1, 2, 3]" "\<lparr>tmpdir = [], assets = []\<rparr>" "[''1'']" "\<lparr>tmpPath = ''tmp'', assetsPath = ''assets'', TargetFileMode = 420, PrefixSize = 2\<rparr>"]
    fresh len ps same run
  show ?thesis
    unfolding pad32_123 by auto
qed

subsection \<open>Store twice\<close>



subsection \<open>A Store that fails\<close>

text \<open>
  Claim C2, as amended. For every stream and whatever calls into the operating
  system fail, the local \<open>Store\<close> puts no partial artifact under any hash: after the
  call every asset path holds what it held before, or it is the target path of the
  stream's hash and holds all bytes of the stream. When \<open>Store\<close> returns an error,
  every asset path is as before the call, unless the error is that of the final
  \<^verbatim>\<open>os.Chmod\<close>: then the rename has promoted the file already.
\<close>

theorem Store_failure_target:
  "local_Store sha256_Sum f flt fs r = (ret, fs') \<longrightarrow>
     (\<forall>p h. lookup_asset fs' p h = lookup_asset fs p h
        \<or> (rerr r = None \<and> h = content_hash sha256_Sum (rdata r) \<and> prefixPath f h = Inr p
            \<and> (\<exists>m. lookup_asset fs' p h = Some (File (rdata r) m))))
     \<and> (snd ret \<noteq> None \<longrightarrow>
          (\<forall>p h. lookup_asset fs' p h = lookup_asset fs p h)
          \<or> (\<exists>e. snd ret = Some (Wrapf ''setting file mode'' e)))"
  using local_Store_post [of sha256_Sum f flt fs r ret fs']
  unfolding store_post_def by blast

theorem Store_failure_target_witness:
  "local_Store pad32 \<lparr>tmpPath = ''tmp'', assetsPath = ''assets'', TargetFileMode = 420, PrefixSize = 2\<rparr> ((no_faults [''1''])\<lparr>rename_fault := Some EACCES\<rparr>) \<lparr>tmpdir = [], assets = []\<rparr>
     (NewReader [1, 2, 3])
   = (([], Some (Wrapf ''renaming temp file''
                  (PathError ''rename'' ''tmp/image-upload-1'' (Errno EACCES)))),
      \<lparr>tmpdir = [], assets = [(''01'', [])]\<rparr>)
   \<and> lookup_asset \<lparr>tmpdir = [], assets = [(''01'', [])]\<rparr> ''01'' ''0102030000000000000000000000000000000000000000000000000000000000'' = None"
proof -
  have run: "local_Store pad32 \<lparr>tmpPath = ''tmp'', assetsPath = ''assets'', TargetFileMode = 420, PrefixSize = 2\<rparr> ((no_faults [''1''])\<lparr>rename_fault := Some EACCES\<rparr>) \<lparr>tmpdir = [], assets = []\<rparr>
     (NewReader [1, 2, 3])
   = (([], Some (Wrapf ''renaming temp file''
                  (PathError ''rename'' ''tmp/image-upload-1'' (Errno EACCES)))),
      \<lparr>tmpdir = [], assets = [(''01'', [])]\<rparr>)"
    by code_simp
  have before: "lookup_asset \<lparr>tmpdir = [], assets = []\<rparr> ''01'' ''0102030000000000000000000000000000000000000000000000000000000000'' = None"
    by (simp add: lookup_asset_def)
  from Store_failure_target [of pad32 "\<lparr>tmpPath = ''tmp'', assetsPath = ''assets'', TargetFileMode = 420, PrefixSize = 2\<rparr>" "(no_faults [''1''])\<lparr>rename_fault := Some EACCES\<rparr>"
      "\<lparr>tmpdir = [], assets = []\<rparr>" "NewReader [1, 2, 3]"
      "([], Some (Wrapf ''renaming temp file''
                  (PathError ''rename'' ''tmp/image-upload-1'' (Errno EACCES))))"
      "\<lparr>tmpdir = [], assets = [(''01'', [])]\<rparr>"] run
  have "\<forall>p h. lookup_asset \<lparr>tmpdir = [], assets = [(''01'', [])]\<rparr> p h = lookup_asset \<lparr>tmpdir = [], assets = []\<rparr> p h"
    by simp
  with before run show ?thesis by simp
qed

text \<open>
  When only \<^verbatim>\<open>os.Chmod\<close> fails and the target did not exist, \<open>Store\<close> returns the
  error of \<^verbatim>\<open>os.Chmod\<close> and the file lies at the target path with all bytes of the
  stream, for every digest function.
\<close>

lemma local_Store_chmod_fault:
  assumes "fresh_name fs rnds" "prefixPath f (content_hash sha B) = Inr p"
    and "lookup_asset fs p (content_hash sha B) = None"
  shows "fst (local_Store sha f ((no_faults rnds)\<lparr>chmod_fault := Some en\<rparr>) fs (NewReader B))
      = ([], Some (Wrapf ''setting file mode''
                     (PathError ''chmod'' (target_path f p (content_hash sha B)) (Errno en))))
    \<and> lookup_asset
         (snd (local_Store sha f ((no_faults rnds)\<lparr>chmod_fault := Some en\<rparr>) fs (NewReader B)))
         p (content_hash sha B) = Some (File B 384)"
proof -
  from assms(1) obtain name where
    ct: "os_CreateTemp (tmpPath f) rnds None fs
       = Inr (name, fs\<lparr>tmpdir := AList.update name (File [] 384) (tmpdir fs)\<rparr>)"
    by (rule os_CreateTemp_fresh)
  let ?h = "hex_EncodeToString (sha B)"
  from assms(2) have pre: "prefixPath f ?h = Inr p" by (simp add: content_hash_def)
  from assms(3) have absent: "lookup_asset fs p ?h = None" by (simp add: content_hash_def)
  show ?thesis
  proof (cases "map_of (assets fs) p")
    case None
    with absent ct pre show ?thesis
      by (simp add: local_Store_def no_faults_def io_Copy_tee_def NewReader_def content_hash_def
          Let_def os_Stat_def lookup_asset_def Store_deferred_def os_MkdirAll_def os_Rename_def
          os_Chmod_def update_conv')
  next
    case (Some d)
    with absent ct pre show ?thesis
      by (simp add: local_Store_def no_faults_def io_Copy_tee_def NewReader_def content_hash_def
          Let_def os_Stat_def lookup_asset_def Store_deferred_def os_MkdirAll_def os_Rename_def
          os_Chmod_def update_conv')
  qed
qed

text \<open>
  Claim C2 as stated fails: in an empty store, \<open>Store\<close> of the bytes 1, 2, 3 with a
  fault of \<^verbatim>\<open>os.Chmod\<close> and no other returns an error, and the file exists at the
  target path under the hash of the stream.
\<close>

theorem local_Store_chmod_counterexample:
  "local_Store pad32
     \<lparr>tmpPath = ''tmp'', assetsPath = ''assets'', TargetFileMode = 420, PrefixSize = 2\<rparr>
     ((no_faults [''1''])\<lparr>chmod_fault := Some EACCES\<rparr>)
     \<lparr>tmpdir = [], assets = []\<rparr> (NewReader [1, 2, 3])
   = (([], Some (Wrapf ''setting file mode''
                  (PathError ''chmod''
                     ''assets/01/0102030000000000000000000000000000000000000000000000000000000000''
                     (Errno EACCES)))),
      \<lparr>tmpdir = [],
       assets = [(''01'',
                  [(''0102030000000000000000000000000000000000000000000000000000000000'',
                    File [1, 2, 3] 384)])]\<rparr>)
   \<and> content_hash pad32 [1, 2, 3]
       = ''0102030000000000000000000000000000000000000000000000000000000000''
   \<and> lookup_asset
        \<lparr>tmpdir = [],
         assets = [(''01'',
                    [(''0102030000000000000000000000000000000000000000000000000000000000'',
                      File [1, 2, 3] 384)])]\<rparr>
        ''01'' ''0102030000000000000000000000000000000000000000000000000000000000''
       = Some (File [1, 2, 3] 384)"
  by code_simp

end
